theory Spec2Isabelle
  imports Main "HOL-Library.AList"
begin

section \<open>Values of the description document\<close>

text \<open>
  The document is a JSON-compatible structure. Its skeleton (document, path item,
  operation, response) is modelled by records, following the types of \<open>openapi3-ts\<close>
  the source annotates its variables with; everything below the skeleton is a JSON value.
  A JavaScript object is an association list in insertion order; a property of an object
  is an own property (the members inherited from \<open>Object.prototype\<close> are not modelled).
\<close>

datatype json =
    JNull
  | JBool bool
  | JNum int
  | JStr string
  | JArr "json list"
  | JObj "(string \<times> json) list"

text \<open>The errors the source throws, by the kind of the spec's taxonomy.\<close>

datatype error =
    UnsupportedTarget
  | MetadataUnavailable
  | DuplicateAnnotation
  | DuplicatePathMethod string string
  | TypeError string
  | SchemaDerivationFailure string
  | RangeError string
  | GeneratorError string

section \<open>Schema-name resolution\<close>

text \<open>\<open>name.endsWith('[]')\<close> and \<open>name.substring(0, name.length - 2)\<close>.\<close>

definition endsWith :: "string \<Rightarrow> string \<Rightarrow> bool" where
  "endsWith s suffix =
     (length suffix \<le> length s \<and> drop (length s - length suffix) s = suffix)"

definition nameToSchemaRef :: "string \<Rightarrow> json" where
  "nameToSchemaRef name =
     (if endsWith name ''[]''
      then JObj [(''type'', JStr ''array''),
                 (''items'', JObj [(''$ref'',
                    JStr (''#/components/schemas/'' @ take (length name - 2) name))])]
      else JObj [(''$ref'', JStr (''#/components/schemas/'' @ name))])"

section \<open>Built-in default responses\<close>

record defaultResponse =
  d_description :: string
  d_content :: "(string \<times> json) list option"

definition textPlain :: "(string \<times> json) list \<Rightarrow> (string \<times> json) list" where
  "textPlain schema = [(''text/plain'', JObj [(''schema'', JObj schema)])]"

text \<open>
  The table \<open>defaultResponses\<close>, keyed by the status code as text. An entry without a
  \<open>content\<close> key (204) has \<open>d_content = None\<close>; a code without an entry gives \<open>None\<close>
  (JavaScript: \<open>undefined\<close>).
\<close>

definition defaultResponses :: "(string \<times> defaultResponse) list" where
  "defaultResponses =
    [(''200'', \<lparr>d_description = ''Successful request'',
               d_content = Some (textPlain [(''type'', JStr ''string'')])\<rparr>),
     (''204'', \<lparr>d_description = ''Successful request, no content to return'',
               d_content = None\<rparr>),
     (''400'', \<lparr>d_description = ''Bad request'',
               d_content = Some (textPlain [(''type'', JStr ''string''),
                                            (''example'', JStr ''Bad Request'')])\<rparr>),
     (''401'', \<lparr>d_description = ''Unauthorized'',
               d_content = Some (textPlain [(''type'', JStr ''string''),
                                            (''example'', JStr ''Unauthorized'')])\<rparr>),
     (''403'', \<lparr>d_description = ''Forbidden'',
               d_content = Some (textPlain [(''type'', JStr ''string''),
                                            (''example'', JStr ''Forbidden'')])\<rparr>),
     (''404'', \<lparr>d_description = ''Not found'',
               d_content = Some (textPlain [(''type'', JStr ''string''),
                                            (''example'', JStr ''Not Found'')])\<rparr>),
     (''500'', \<lparr>d_description = ''Internal server error'',
               d_content = Some (textPlain [(''type'', JStr ''string''),
                                            (''example'', JStr ''Internal Server Error'')])\<rparr>)]"

section \<open>Status codes as text\<close>

text \<open>
  \<open>String(code)\<close> for an integer status code: its decimal digits, with a leading minus
  sign for a negative one (codes are integers of fewer than 22 digits, which JavaScript
  prints without an exponent).
\<close>

definition digitChar :: "nat \<Rightarrow> char" where
  "digitChar d = char_of (48 + d)"

fun natStr :: "nat \<Rightarrow> string" where
  "natStr n = (if n < 10 then [digitChar n] else natStr (n div 10) @ [digitChar (n mod 10)])"

declare natStr.simps [simp del]

definition String_of :: "int \<Rightarrow> string" where
  "String_of code = (if code < 0 then CHR ''-'' # natStr (nat (- code)) else natStr (nat code))"

section \<open>Response annotations and the responses of an operation\<close>

text \<open>
  \<open>ResponseContentMetadata\<close>: a schema name, or an object from media type to either a
  schema name or a full media-type object. The headers of a response tuple are an object
  that the source never looks into and stores as it is; its type is the parameter \<open>'o\<close>: a
  JSON value where only the content of the object matters, the address of the object
  where its identity does (section "Object identity").
\<close>

datatype mediaEntry = MediaName string | MediaObject json

datatype ResponseContentMetadata =
    ContentName string
  | ContentObject "(string \<times> mediaEntry) list"

record 'o ResponseMetadata =
  r_code :: int
  r_content :: "ResponseContentMetadata option"
  r_description :: "string option"
  r_headers :: "'o option"

record oaResponse =
  oa_description :: string
  oa_content :: "(string \<times> json) list option"
  oa_headers :: "json option"

text \<open>
  The first statement of the loop body:
  \<open>content ?? ('content' in defaultResponses[codeStr] ? defaultResponses[codeStr].content : undefined)\<close>.
  The right operand is evaluated only when \<open>content\<close> is absent; the \<open>in\<close> operator then
  throws a \<open>TypeError\<close> when \<open>defaultResponses[codeStr]\<close> is \<open>undefined\<close>.
\<close>

datatype userContent =
    UString string
  | UObject "(string \<times> mediaEntry) list"
  | UUndefined

definition resolveUserContent :: "string \<Rightarrow> ResponseContentMetadata option \<Rightarrow> error + userContent" where
  "resolveUserContent codeStr content =
     (case content of
        Some (ContentName n) \<Rightarrow> Inr (UString n)
      | Some (ContentObject c) \<Rightarrow> Inr (UObject c)
      | None \<Rightarrow>
          (case map_of defaultResponses codeStr of
             None \<Rightarrow> Inl (TypeError ''in operator: right operand is undefined'')
           | Some d \<Rightarrow>
               (case d_content d of
                  Some c \<Rightarrow> Inr (UObject (map (\<lambda>(k, v). (k, MediaObject v)) c))
                | None \<Rightarrow> Inr UUndefined)))"

text \<open>
  The second statement: a string becomes the JSON shorthand; an object is cloned and each
  string value of it is replaced by \<open>{ schema: nameToSchemaRef(value) }\<close>.
\<close>

definition expandMedia :: "mediaEntry \<Rightarrow> json" where
  "expandMedia m =
     (case m of
        MediaName n \<Rightarrow> JObj [(''schema'', nameToSchemaRef n)]
      | MediaObject j \<Rightarrow> j)"

definition expandUserContent :: "userContent \<Rightarrow> (string \<times> json) list option" where
  "expandUserContent u =
     (case u of
        UString n \<Rightarrow> Some [(''application/json'', JObj [(''schema'', nameToSchemaRef n)])]
      | UObject c \<Rightarrow> Some (map (\<lambda>(k, v). (k, expandMedia v)) c)
      | UUndefined \<Rightarrow> None)"

text \<open>
  The object assigned to \<open>oaResponses[codeStr]\<close>:
  \<open>description ?? defaultResponses[codeStr]?.description ?? 'Response'\<close>.
\<close>

definition resolveDescription :: "string \<Rightarrow> string option \<Rightarrow> string" where
  "resolveDescription codeStr description =
     (case description of
        Some d \<Rightarrow> d
      | None \<Rightarrow>
          (case map_of defaultResponses codeStr of
             Some d \<Rightarrow> d_description d
           | None \<Rightarrow> ''Response''))"

definition responseEntry :: "json ResponseMetadata \<Rightarrow> error + (string \<times> oaResponse)" where
  "responseEntry r =
     (let codeStr = String_of (r_code r) in
      case resolveUserContent codeStr (r_content r) of
        Inl e \<Rightarrow> Inl e
      | Inr u \<Rightarrow>
          Inr (codeStr,
               \<lparr>oa_description = resolveDescription codeStr (r_description r),
                oa_content = expandUserContent u,
                oa_headers = r_headers r\<rparr>))"

text \<open>
  The loop \<open>for (const { code, content, description, headers } of responses)\<close> over the
  object \<open>oaResponses\<close>: each iteration assigns a whole new object to the key.
  (The keys of \<open>oaResponses\<close> are only looked up here; JavaScript enumerates integer-like
  keys in ascending order, the list keeps the order of first assignment.)
\<close>

fun oaResponsesLoop ::
  "json ResponseMetadata list \<Rightarrow> (string \<times> oaResponse) list \<Rightarrow> error + (string \<times> oaResponse) list" where
  "oaResponsesLoop [] oaResponses = Inr oaResponses"
| "oaResponsesLoop (r # rs) oaResponses =
     (case responseEntry r of
        Inl e \<Rightarrow> Inl e
      | Inr (codeStr, entry) \<Rightarrow> oaResponsesLoop rs (AList.update codeStr entry oaResponses))"

section \<open>Path template translation\<close>

text \<open>
  Both regular expressions of the source,
  \<^verbatim>\<open>/:([a-zA-Z0-9_]+)(?:\((?:\\\)|[^)])+\))?/g\<close> for the replacement and the same with the
  pattern captured for the parameters, match the same substrings. A match starts at a
  colon followed by a non-empty, maximal run of name characters. The optional group is
  tried next: after an open parenthesis the engine repeats, greedily, the alternatives
  "backslash then close parenthesis" and "one character other than a close parenthesis",
  and then needs a close parenthesis. When the repetition runs into the end of the
  string, backtracking re-reads the last "backslash then close parenthesis" as a lone
  backslash followed by the closing parenthesis; when there is none, or no character was
  repeated at all, the group does not take part and the match is the name alone.
\<close>

definition inRange :: "char \<Rightarrow> char \<Rightarrow> char \<Rightarrow> bool" where
  "inRange lo hi c = ((of_char lo :: nat) \<le> of_char c \<and> (of_char c :: nat) \<le> of_char hi)"

definition isNameChar :: "char \<Rightarrow> bool" where
  "isNameChar c =
     (inRange CHR ''a'' CHR ''z'' c \<or> inRange CHR ''A'' CHR ''Z'' c
      \<or> inRange CHR ''0'' CHR ''9'' c \<or> c = CHR ''_'')"

text \<open>
  \<open>scanGroup acc fallback s\<close>: \<open>acc\<close> is the text the repetition has consumed, \<open>fallback\<close> the
  match that backtracking would fall back to, \<open>s\<close> the rest of the input. The result is
  the captured pattern and the input after the closing parenthesis.
\<close>

fun scanGroup :: "string \<Rightarrow> (string \<times> string) option \<Rightarrow> string \<Rightarrow> (string \<times> string) option" where
  "scanGroup acc fallback [] = fallback"
| "scanGroup acc fallback [c] =
     (if c = CHR '')'' then (if acc = [] then None else Some (acc, []))
      else scanGroup (acc @ [c]) fallback [])"
| "scanGroup acc fallback (c # d # s) =
     (if c = CHR '')'' then (if acc = [] then None else Some (acc, d # s))
      else if c = CHR 0x5C \<and> d = CHR '')''
      then scanGroup (acc @ [c, d]) (Some (acc @ [c], s)) s
      else scanGroup (acc @ [c]) fallback (d # s))"

text \<open>
  A match at the head of the input: the name, the pattern when the group took part, and
  the input after the match.
\<close>

definition matchParam :: "string \<Rightarrow> (string \<times> string option \<times> string) option" where
  "matchParam s =
     (case s of
        [] \<Rightarrow> None
      | c # t \<Rightarrow>
          if c \<noteq> CHR '':'' \<or> takeWhile isNameChar t = [] then None
          else
            (let name = takeWhile isNameChar t; after = dropWhile isNameChar t in
             case after of
               [] \<Rightarrow> Some (name, None, after)
             | p # u \<Rightarrow>
                 if p = CHR ''(''
                 then (case scanGroup [] None u of
                         Some (pattern, rest) \<Rightarrow> Some (name, Some pattern, rest)
                       | None \<Rightarrow> Some (name, None, after))
                 else Some (name, None, after)))"

lemma scanGroup_shorter:
  "scanGroup acc fallback s = Some (p, r) \<Longrightarrow> fallback = Some (p, r) \<or> length r < length s"
proof (induction acc fallback s rule: scanGroup.induct)
  case (1 acc fallback)
  then show ?case by simp
next
  case (2 acc fallback c)
  then show ?case by (auto split: if_splits)
next
  case (3 acc fallback c d s)
  then show ?case by (fastforce split: if_splits)
qed

lemma matchParam_shorter:
  assumes "matchParam s = Some (name, pattern, rest)"
  shows "length rest < length s"
proof (cases s)
  case Nil
  with assms show ?thesis by (simp add: matchParam_def)
next
  case (Cons c t)
  have dw: "length (dropWhile isNameChar t) \<le> length t"
    by (rule length_dropWhile_le)
  show ?thesis
  proof (cases "dropWhile isNameChar t")
    case Nil
    with assms Cons show ?thesis
      by (simp add: matchParam_def Let_def del: dropWhile_eq_Nil_conv split: if_splits)
  next
    case (Cons p u)
    note after = this
    show ?thesis
    proof (cases "p = CHR ''('' \<and> scanGroup [] None u \<noteq> None")
      case True
      then obtain pat r where sg: "scanGroup [] None u = Some (pat, r)" by auto
      from scanGroup_shorter [OF sg] have "length r < length u" by simp
      moreover from assms \<open>s = c # t\<close> after True sg have "rest = r"
        by (auto simp: matchParam_def Let_def split: if_splits)
      ultimately show ?thesis using dw after \<open>s = c # t\<close> by simp
    next
      case False
      with assms \<open>s = c # t\<close> after have "rest = dropWhile isNameChar t"
        by (auto simp: matchParam_def Let_def split: if_splits option.splits)
      then show ?thesis using dw \<open>s = c # t\<close> by simp
    qed
  qed
qed

text \<open>
  \<open>path.replace(regex, '{$1}')\<close>: every match, found from left to right and each search
  resuming after the previous match, is replaced by the name in braces.
\<close>

function oaPath :: "string \<Rightarrow> string" where
  "oaPath [] = []"
| "oaPath (c # t) =
     (case matchParam (c # t) of
        Some (name, pattern, rest) \<Rightarrow> ''{'' @ name @ ''}'' @ oaPath rest
      | None \<Rightarrow> c # oaPath t)"
  by pat_completeness auto
termination
  by (relation "measure length") (auto dest: matchParam_shorter)

text \<open>\<open>pattern.match(/^[a-zA-Z0-9_|]+$/)\<close> and \<open>pattern.split('|')\<close>.\<close>

definition enumRegex :: "string \<Rightarrow> bool" where
  "enumRegex pattern =
     (pattern \<noteq> [] \<and> list_all (\<lambda>c. isNameChar c \<or> c = CHR ''|'') pattern)"

fun splitFrom :: "char \<Rightarrow> string \<Rightarrow> string \<Rightarrow> string list" where
  "splitFrom sep cur [] = [cur]"
| "splitFrom sep cur (c # s) =
     (if c = sep then cur # splitFrom sep [] s else splitFrom sep (cur @ [c]) s)"

definition splitOn :: "char \<Rightarrow> string \<Rightarrow> string list" where
  "splitOn sep s = splitFrom sep [] s"

text \<open>
  The parameter object pushed for one match. \<open>pattern ? ... : { type: 'string' }\<close> tests the
  captured pattern for truthiness: an absent or empty capture gives the plain string
  schema.
\<close>

definition parameterSchema :: "string option \<Rightarrow> json" where
  "parameterSchema pattern =
     (case pattern of
        None \<Rightarrow> JObj [(''type'', JStr ''string'')]
      | Some p \<Rightarrow>
          if p = [] then JObj [(''type'', JStr ''string'')]
          else if enumRegex p
          then JObj [(''type'', JStr ''string''), (''enum'', JArr (map JStr (splitOn CHR ''|'' p)))]
          else JObj [(''type'', JStr ''string''), (''pattern'', JStr p)])"

definition parameterObject :: "string \<Rightarrow> string option \<Rightarrow> json" where
  "parameterObject name pattern =
     JObj [(''name'', JStr name), (''in'', JStr ''path''), (''required'', JBool True),
           (''schema'', parameterSchema pattern)]"

text \<open>The loop \<open>while ((match = paramRegex.exec(path)) !== null)\<close>.\<close>

function parameters :: "string \<Rightarrow> json list" where
  "parameters [] = []"
| "parameters (c # t) =
     (case matchParam (c # t) of
        Some (name, pattern, rest) \<Rightarrow> parameterObject name pattern # parameters rest
      | None \<Rightarrow> parameters t)"
  by pat_completeness auto
termination
  by (relation "measure length") (auto dest: matchParam_shorter)

text \<open>
  A parameter occurrence: a colon directly followed by a name character (where the
  regular expressions of the source can match at all).
\<close>

fun hasParameter :: "string \<Rightarrow> bool" where
  "hasParameter [] = False"
| "hasParameter [c] = False"
| "hasParameter (c # d # s) = ((c = CHR '':'' \<and> isNameChar d) \<or> hasParameter (d # s))"

section \<open>The annotation store\<close>

text \<open>
  Decorator metadata of one class: one \<open>Map\<close> per annotation kind, from declaration site
  to value. A \<open>Map\<close> iterates in insertion order, so it is an association list; a kind
  that no decorator has touched has no map (\<open>None\<close>). The key of a method is its name, a
  string or a symbol; the key of the class is the private symbol \<open>CLASS_METADATA\<close>. A
  request body is a schema name or an object, of the type \<open>'o\<close> like the headers of a
  response.
\<close>

datatype name = Str string | Sym nat

datatype key = CLASS_METADATA | Member name

datatype MethodMetadata = GET | POST | PUT | DELETE | HEAD | OPTIONS | PATCH | TRACE

datatype 'o RequestBodyMetadata = BodyName string | BodyObject 'o

record 'o DecoratorMetadataObject =
  METHOD :: "(key \<times> MethodMetadata) list option"
  PATH :: "(key \<times> string list) list option"
  MIDDLEWARE :: "(key \<times> string list) list option"
  TAG :: "(key \<times> string list) list option"
  SUMMARY :: "(key \<times> string) list option"
  DESCRIPTION :: "(key \<times> string) list option"
  OPERATION_ID :: "(key \<times> string) list option"
  REQUEST_BODY :: "(key \<times> 'o RequestBodyMetadata) list option"
  RESPONSE :: "(key \<times> 'o ResponseMetadata list) list option"

definition emptyMetadata :: "'o DecoratorMetadataObject" where
  "emptyMetadata =
     \<lparr>METHOD = None, PATH = None, MIDDLEWARE = None, TAG = None, SUMMARY = None,
      DESCRIPTION = None, OPERATION_ID = None, REQUEST_BODY = None, RESPONSE = None\<rparr>"

text \<open>
  The decorator context: the kind of the decorated element, its name, and the metadata
  object of the class (absent on a host without decorator metadata). A middleware is
  identified by the name of its function.
\<close>

datatype kind = Class | Method | Getter | Setter | Field | Accessor

record 'o decoratorContext =
  ctx_kind :: kind
  ctx_name :: name
  ctx_metadata :: "'o DecoratorMetadataObject option"

text \<open>\<open>context.metadata[K] ??= new Map()\<close>, \<open>map?.get(key)\<close> and \<open>map.has(key)\<close>.\<close>

definition orNewMap :: "('k \<times> 'v) list option \<Rightarrow> ('k \<times> 'v) list" where
  "orNewMap m = (case m of None \<Rightarrow> [] | Some l \<Rightarrow> l)"

definition mapGet :: "('k \<times> 'v) list option \<Rightarrow> 'k \<Rightarrow> 'v option" where
  "mapGet m k = (case m of None \<Rightarrow> None | Some l \<Rightarrow> map_of l k)"

definition mapHas :: "('k \<times> 'v) list \<Rightarrow> 'k \<Rightarrow> bool" where
  "mapHas m k = (map_of m k \<noteq> None)"

text \<open>
  \<open>let list = map.get(key); if (!list) map.set(key, list = []); list.push(...values)\<close>
\<close>

definition pushAll :: "('k \<times> 'v list) list \<Rightarrow> 'k \<Rightarrow> 'v list \<Rightarrow> ('k \<times> 'v list) list" where
  "pushAll m k values =
     (case map_of m k of
        None \<Rightarrow> AList.update k ([] @ values) m
      | Some list \<Rightarrow> AList.update k (list @ values) m)"

definition classOrMethodKey :: "'o decoratorContext \<Rightarrow> key" where
  "classOrMethodKey ctx = (if ctx_kind ctx = Class then CLASS_METADATA else Member (ctx_name ctx))"

subsection \<open>Decorators valid on classes and methods\<close>

text \<open>The decorator \<open>method\<close> (the name is reserved in theories, hence the suffix).\<close>

definition methodDecorator :: "MethodMetadata \<Rightarrow> 'o decoratorContext \<Rightarrow> error + 'o DecoratorMetadataObject" where
  "methodDecorator m ctx =
     (if ctx_kind ctx \<noteq> Class \<and> ctx_kind ctx \<noteq> Method then Inl UnsupportedTarget
      else case ctx_metadata ctx of
        None \<Rightarrow> Inl MetadataUnavailable
      | Some md \<Rightarrow>
          (let map = orNewMap (METHOD md); key = classOrMethodKey ctx in
           if mapHas map key then Inl DuplicateAnnotation
           else Inr (md\<lparr>METHOD := Some (AList.update key m map)\<rparr>)))"

definition path :: "string \<Rightarrow> 'o decoratorContext \<Rightarrow> error + 'o DecoratorMetadataObject" where
  "path p ctx =
     (if ctx_kind ctx \<noteq> Class \<and> ctx_kind ctx \<noteq> Method then Inl UnsupportedTarget
      else case ctx_metadata ctx of
        None \<Rightarrow> Inl MetadataUnavailable
      | Some md \<Rightarrow>
          (let map = orNewMap (PATH md); key = classOrMethodKey ctx in
           Inr (md\<lparr>PATH := Some (pushAll map key [p])\<rparr>)))"

definition middleware :: "string list \<Rightarrow> 'o decoratorContext \<Rightarrow> error + 'o DecoratorMetadataObject" where
  "middleware middlewares ctx =
     (if ctx_kind ctx \<noteq> Class \<and> ctx_kind ctx \<noteq> Method then Inl UnsupportedTarget
      else case ctx_metadata ctx of
        None \<Rightarrow> Inl MetadataUnavailable
      | Some md \<Rightarrow>
          (let map = orNewMap (MIDDLEWARE md); key = classOrMethodKey ctx in
           Inr (md\<lparr>MIDDLEWARE := Some (pushAll map key middlewares)\<rparr>)))"

definition tag :: "string list \<Rightarrow> 'o decoratorContext \<Rightarrow> error + 'o DecoratorMetadataObject" where
  "tag tags ctx =
     (if ctx_kind ctx \<noteq> Class \<and> ctx_kind ctx \<noteq> Method then Inl UnsupportedTarget
      else case ctx_metadata ctx of
        None \<Rightarrow> Inl MetadataUnavailable
      | Some md \<Rightarrow>
          (let map = orNewMap (TAG md); key = classOrMethodKey ctx in
           Inr (md\<lparr>TAG := Some (pushAll map key tags)\<rparr>)))"

definition response ::
  "int \<Rightarrow> ResponseContentMetadata option \<Rightarrow> string option \<Rightarrow> 'o option \<Rightarrow> 'o decoratorContext
     \<Rightarrow> error + 'o DecoratorMetadataObject" where
  "response code content description headers ctx =
     (if ctx_kind ctx \<noteq> Class \<and> ctx_kind ctx \<noteq> Method then Inl UnsupportedTarget
      else case ctx_metadata ctx of
        None \<Rightarrow> Inl MetadataUnavailable
      | Some md \<Rightarrow>
          (let map = orNewMap (RESPONSE md); key = classOrMethodKey ctx in
           Inr (md\<lparr>RESPONSE := Some (pushAll map key
                  [\<lparr>r_code = code, r_content = content, r_description = description,
                    r_headers = headers\<rparr>])\<rparr>)))"

subsection \<open>Decorators valid on methods only\<close>

definition summary :: "string \<Rightarrow> 'o decoratorContext \<Rightarrow> error + 'o DecoratorMetadataObject" where
  "summary text ctx =
     (if ctx_kind ctx \<noteq> Method then Inl UnsupportedTarget
      else case ctx_metadata ctx of
        None \<Rightarrow> Inl MetadataUnavailable
      | Some md \<Rightarrow>
          (let map = orNewMap (SUMMARY md) in
           if mapHas map (Member (ctx_name ctx)) then Inl DuplicateAnnotation
           else Inr (md\<lparr>SUMMARY := Some (AList.update (Member (ctx_name ctx)) text map)\<rparr>)))"

definition description :: "string \<Rightarrow> 'o decoratorContext \<Rightarrow> error + 'o DecoratorMetadataObject" where
  "description text ctx =
     (if ctx_kind ctx \<noteq> Method then Inl UnsupportedTarget
      else case ctx_metadata ctx of
        None \<Rightarrow> Inl MetadataUnavailable
      | Some md \<Rightarrow>
          (let map = orNewMap (DESCRIPTION md) in
           if mapHas map (Member (ctx_name ctx)) then Inl DuplicateAnnotation
           else Inr (md\<lparr>DESCRIPTION := Some (AList.update (Member (ctx_name ctx)) text map)\<rparr>)))"

definition operationId :: "string \<Rightarrow> 'o decoratorContext \<Rightarrow> error + 'o DecoratorMetadataObject" where
  "operationId text ctx =
     (if ctx_kind ctx \<noteq> Method then Inl UnsupportedTarget
      else case ctx_metadata ctx of
        None \<Rightarrow> Inl MetadataUnavailable
      | Some md \<Rightarrow>
          (let map = orNewMap (OPERATION_ID md) in
           if mapHas map (Member (ctx_name ctx)) then Inl DuplicateAnnotation
           else Inr (md\<lparr>OPERATION_ID := Some (AList.update (Member (ctx_name ctx)) text map)\<rparr>)))"

definition requestBody :: "'o RequestBodyMetadata \<Rightarrow> 'o decoratorContext \<Rightarrow> error + 'o DecoratorMetadataObject" where
  "requestBody body ctx =
     (if ctx_kind ctx \<noteq> Method then Inl UnsupportedTarget
      else case ctx_metadata ctx of
        None \<Rightarrow> Inl MetadataUnavailable
      | Some md \<Rightarrow>
          (let map = orNewMap (REQUEST_BODY md) in
           if mapHas map (Member (ctx_name ctx)) then Inl DuplicateAnnotation
           else Inr (md\<lparr>REQUEST_BODY := Some (AList.update (Member (ctx_name ctx)) body map)\<rparr>)))"

subsection \<open>Applying a decorator again\<close>

text \<open>
  The metadata object is shared by all decorators of a class: the second application on a
  declaration site sees the object as the first one left it. \<open>listAt\<close> reads the list of a
  site, empty when the site has none.
\<close>

definition after :: "'o decoratorContext \<Rightarrow> 'o DecoratorMetadataObject \<Rightarrow> 'o decoratorContext" where
  "after ctx md = ctx\<lparr>ctx_metadata := Some md\<rparr>"

definition listAt :: "('k \<times> 'v list) list option \<Rightarrow> 'k \<Rightarrow> 'v list" where
  "listAt m k = (case mapGet m k of Some l \<Rightarrow> l | None \<Rightarrow> [])"

section \<open>Loops that may throw\<close>

text \<open>
  A \<open>for ... of\<close> loop over a state: the body returns the new state and the error it threw,
  if any; the loop stops at the first throw, and the effects made so far remain.
\<close>

fun forOf :: "('a \<Rightarrow> 's \<Rightarrow> 's \<times> error option) \<Rightarrow> 'a list \<Rightarrow> 's \<Rightarrow> 's \<times> error option" where
  "forOf body [] s = (s, None)"
| "forOf body (x # xs) s =
     (case body x s of
        (s', None) \<Rightarrow> forOf body xs s'
      | (s', Some e) \<Rightarrow> (s', Some e))"

section \<open>Controllers\<close>

text \<open>
  A controller instance: an identity, the metadata object of its class
  (\<open>controller.constructor[Symbol.metadata]\<close>), and the names of the properties of the
  instance that hold a function. Binding a handler, \<open>controller[handlerName].bind(controller)\<close>,
  throws a \<open>TypeError\<close> when the instance has no function of that name.
\<close>

record 'o controller =
  c_id :: nat
  c_metadata :: "'o DecoratorMetadataObject option"
  c_functions :: "name list"

datatype handler = Bound nat name

definition bind :: "json controller \<Rightarrow> key \<Rightarrow> error + handler" where
  "bind c handlerName =
     (case handlerName of
        Member n \<Rightarrow>
          if n \<in> set (c_functions c) then Inr (Bound (c_id c) n)
          else Inl (TypeError ''bind: the handler is undefined'')
      | CLASS_METADATA \<Rightarrow> Inl (TypeError ''bind: the handler is undefined''))"

definition toLowerCase :: "MethodMetadata \<Rightarrow> string" where
  "toLowerCase m =
     (case m of GET \<Rightarrow> ''get'' | POST \<Rightarrow> ''post'' | PUT \<Rightarrow> ''put'' | DELETE \<Rightarrow> ''delete''
      | HEAD \<Rightarrow> ''head'' | OPTIONS \<Rightarrow> ''options'' | PATCH \<Rightarrow> ''patch'' | TRACE \<Rightarrow> ''trace'')"

text \<open>The class-level values read once per controller, and the effective HTTP method.\<close>

definition classPaths :: "'o DecoratorMetadataObject \<Rightarrow> string list" where
  "classPaths md = (case mapGet (PATH md) CLASS_METADATA of Some ps \<Rightarrow> ps | None \<Rightarrow> [''''])"

definition classMethod :: "'o DecoratorMetadataObject \<Rightarrow> MethodMetadata" where
  "classMethod md = (case mapGet (METHOD md) CLASS_METADATA of Some m \<Rightarrow> m | None \<Rightarrow> GET)"

definition classMiddlewares :: "'o DecoratorMetadataObject \<Rightarrow> string list" where
  "classMiddlewares md = (case mapGet (MIDDLEWARE md) CLASS_METADATA of Some ms \<Rightarrow> ms | None \<Rightarrow> [])"

definition effectiveMethod :: "'o DecoratorMetadataObject \<Rightarrow> key \<Rightarrow> MethodMetadata" where
  "effectiveMethod md handlerName =
     (case mapGet (METHOD md) handlerName of Some m \<Rightarrow> m | None \<Rightarrow> classMethod md)"

section \<open>Route resolution\<close>

record RegisteredControllerInfo =
  i_method :: MethodMetadata
  i_path :: string
  i_middlewares :: "string list"
  i_handler :: handler

text \<open>
  The registrar is the external router. It is modelled by the list of the calls made on
  it, \<open>registrar[verb](path, ...middlewares, handler)\<close>, which are taken not to throw;
  \<open>None\<close> is an absent registrar, on which the optional call does nothing.
\<close>

type_synonym registration = "string \<times> string \<times> string list \<times> handler"

type_synonym registrar = "registration list option"

definition routeBody ::
  "json controller \<Rightarrow> json DecoratorMetadataObject \<Rightarrow> key \<Rightarrow> string \<Rightarrow> string
     \<Rightarrow> RegisteredControllerInfo list \<times> registrar
     \<Rightarrow> (RegisteredControllerInfo list \<times> registrar) \<times> error option" where
  "routeBody c md handlerName classPath methodPath st =
     (let p = classPath @ methodPath;
          m = effectiveMethod md handlerName in
      case bind c handlerName of
        Inl e \<Rightarrow> (st, Some e)
      | Inr h \<Rightarrow>
          (let middlewares =
                 classMiddlewares md
                 @ (case mapGet (MIDDLEWARE md) handlerName of Some ms \<Rightarrow> ms | None \<Rightarrow> []);
               info = fst st @ [\<lparr>i_method = m, i_path = p, i_middlewares = middlewares,
                                 i_handler = h\<rparr>];
               verb = toLowerCase m
           in ((info, map_option (\<lambda>calls. calls @ [(verb, p, middlewares, h)]) (snd st)), None)))"

definition registerController ::
  "json controller \<Rightarrow> RegisteredControllerInfo list \<times> registrar
     \<Rightarrow> (RegisteredControllerInfo list \<times> registrar) \<times> error option" where
  "registerController c st =
     (case c_metadata c of
        None \<Rightarrow> (st, None)
      | Some md \<Rightarrow>
          (case PATH md of
             None \<Rightarrow> (st, None)
           | Some pathMap \<Rightarrow>
               if pathMap = [] then (st, None)
               else
                 forOf (\<lambda>(handlerName, methodPaths) st.
                     if handlerName = CLASS_METADATA then (st, None)
                     else
                       forOf (\<lambda>classPath.
                           forOf (\<lambda>methodPath. routeBody c md handlerName classPath methodPath)
                             methodPaths)
                         (classPaths md) st)
                   pathMap st))"

text \<open>
  \<open>registerControllers\<close> on a list of controller instances (a single instance is the list
  of one). The first argument tells whether the host has \<open>Symbol.metadata\<close>. The result is
  the registrar after the call and either the error thrown or the list returned.
\<close>

definition registerControllers ::
  "bool \<Rightarrow> registrar \<Rightarrow> json controller list
     \<Rightarrow> registrar \<times> (error + RegisteredControllerInfo list)" where
  "registerControllers symbolMetadata reg controllers =
     (if \<not> symbolMetadata then (reg, Inl MetadataUnavailable)
      else
        case forOf registerController controllers ([], reg) of
          ((info, reg'), None) \<Rightarrow> (reg', Inr info)
        | ((info, reg'), Some e) \<Rightarrow> (reg', Inl e))"

subsection \<open>The records of a controller, as a list\<close>

text \<open>
  \<open>route\<close> is the record pushed and the call made by one iteration of the innermost
  loop; \<open>pathBearing\<close> lists the method sites with a path annotation, in the order of the
  map; \<open>handlersBound\<close> says that each of them names a function of the instance;
  \<open>resolution\<close> lists the records and calls of a controller in the order of the loops;
  \<open>push\<close> appends such a list to the state of the loops.
\<close>

type_synonym regState = "RegisteredControllerInfo list \<times> registrar"

definition route ::
  "json controller \<Rightarrow> json DecoratorMetadataObject \<Rightarrow> name \<Rightarrow> string \<Rightarrow> string
     \<Rightarrow> RegisteredControllerInfo \<times> registration" where
  "route c md n classPath methodPath =
     (let middlewares = classMiddlewares md
            @ (case mapGet (MIDDLEWARE md) (Member n) of Some ms \<Rightarrow> ms | None \<Rightarrow> []);
          m = effectiveMethod md (Member n)
      in (\<lparr>i_method = m, i_path = classPath @ methodPath, i_middlewares = middlewares,
           i_handler = Bound (c_id c) n\<rparr>,
          (toLowerCase m, classPath @ methodPath, middlewares, Bound (c_id c) n)))"

definition pathBearing :: "json controller \<Rightarrow> (key \<times> string list) list" where
  "pathBearing c =
     (case c_metadata c of
        None \<Rightarrow> []
      | Some md \<Rightarrow> filter (\<lambda>(h, mps). h \<noteq> CLASS_METADATA) (orNewMap (PATH md)))"

definition handlersBound :: "json controller \<Rightarrow> bool" where
  "handlersBound c =
     list_all (\<lambda>(h, mps). case h of Member n \<Rightarrow> n \<in> set (c_functions c) | CLASS_METADATA \<Rightarrow> False)
       (pathBearing c)"

definition resolution :: "json controller \<Rightarrow> (RegisteredControllerInfo \<times> registration) list" where
  "resolution c =
     (case c_metadata c of
        None \<Rightarrow> []
      | Some md \<Rightarrow>
          concat (map (\<lambda>(h, mps).
              case h of
                CLASS_METADATA \<Rightarrow> []
              | Member n \<Rightarrow>
                  concat (map (\<lambda>classPath. map (\<lambda>methodPath. route c md n classPath methodPath) mps)
                            (classPaths md)))
            (pathBearing c)))"

definition push :: "(RegisteredControllerInfo \<times> registration) list \<Rightarrow> regState \<Rightarrow> regState" where
  "push rs st = (fst st @ map fst rs, map_option (\<lambda>calls. calls @ map snd rs) (snd st))"

section \<open>Document synthesis\<close>

record oaOperation =
  op_tags :: "string list option"
  op_summary :: "string option"
  op_description :: "string option"
  op_operationId :: "string option"
  op_requestBody :: "json option"
  op_responses :: "(string \<times> oaResponse) list option"

text \<open>A path item: its parameters and its operations, keyed by the lower-cased verb.\<close>

record oaPathItem =
  pi_parameters :: "json list option"
  pi_operations :: "(string \<times> oaOperation) list"

text \<open>
  The document: \<open>paths\<close>, \<open>components.schemas\<close> (a schema is a value of the type \<open>'s\<close>),
  and every other section as it came.
\<close>

record 's components =
  schemas :: "(string \<times> 's) list option"
  co_other :: "(string \<times> json) list"

record 's openapi =
  paths :: "(string \<times> oaPathItem) list option"
  components :: "'s components option"
  o_other :: "(string \<times> json) list"

text \<open>\<open>[...new Set(list)]\<close>: the elements in the order of their first occurrence.\<close>

fun uniqFrom :: "'a list \<Rightarrow> 'a list \<Rightarrow> 'a list" where
  "uniqFrom seen [] = seen"
| "uniqFrom seen (x # xs) = (if x \<in> set seen then uniqFrom seen xs else uniqFrom (seen @ [x]) xs)"

definition truthy :: "string option \<Rightarrow> string option" where
  "truthy v = (case v of Some s \<Rightarrow> (if s = [] then None else Some s) | None \<Rightarrow> None)"

definition requestBodyObject :: "json RequestBodyMetadata \<Rightarrow> json" where
  "requestBodyObject b =
     (case b of
        BodyName n \<Rightarrow>
          JObj [(''content'', JObj [(''application/json'', JObj [(''schema'', nameToSchemaRef n)])]),
                (''required'', JBool True)]
      | BodyObject j \<Rightarrow> j)"

text \<open>
  \<open>[...classReponses, ...(responseMap?.get(handlerName) ?? [])]\<close>: the class-level response
  tuples, then the method-level ones.
\<close>

definition responsesFor :: "'o DecoratorMetadataObject \<Rightarrow> key \<Rightarrow> 'o ResponseMetadata list" where
  "responsesFor md handlerName =
     (let classReponses = (case mapGet (RESPONSE md) CLASS_METADATA of Some rs \<Rightarrow> rs | None \<Rightarrow> [])
      in classReponses @ (case mapGet (RESPONSE md) handlerName of Some rs \<Rightarrow> rs | None \<Rightarrow> []))"

text \<open>
  The operation object of one handler, built after the duplicate check: tags, summary,
  description, operation id, request body, responses. Only the responses can throw.
\<close>

definition operationOf :: "json DecoratorMetadataObject \<Rightarrow> key \<Rightarrow> error + oaOperation" where
  "operationOf md handlerName =
     (let classTags = (case mapGet (TAG md) CLASS_METADATA of Some ts \<Rightarrow> ts | None \<Rightarrow> []);
          classRequestBody = mapGet (REQUEST_BODY md) CLASS_METADATA;
          tags = uniqFrom []
                   (classTags @ (case mapGet (TAG md) handlerName of Some ts \<Rightarrow> ts | None \<Rightarrow> []));
          methodOperationId = truthy (mapGet (OPERATION_ID md) handlerName);
          body = (case mapGet (REQUEST_BODY md) handlerName of
                    Some b \<Rightarrow> Some b
                  | None \<Rightarrow> classRequestBody);
          responses = responsesFor md handlerName;
          operation =
            \<lparr>op_tags = (if tags = [] then None else Some tags),
             op_summary = truthy (mapGet (SUMMARY md) handlerName),
             op_description = truthy (mapGet (DESCRIPTION md) handlerName),
             op_operationId =
               (case methodOperationId of
                  Some i \<Rightarrow> Some i
                | None \<Rightarrow> (case handlerName of Member (Str n) \<Rightarrow> Some n | _ \<Rightarrow> None)),
             op_requestBody = map_option requestBodyObject body,
             op_responses = None\<rparr>
      in if responses = [] then Inr operation
         else case oaResponsesLoop responses [] of
                Inl e \<Rightarrow> Inl e
              | Inr oaResponses \<Rightarrow> Inr (operation\<lparr>op_responses := Some oaResponses\<rparr>))"

text \<open>
  The body of the innermost loop, on the object \<open>openapi.paths\<close>. A translated path seen
  for the first time gets a new path item with the derived parameters; a path item that
  exists already is used as it is. The state of a throwing iteration is of no use: the
  document under construction is lost with the throw.
\<close>

definition operationBody ::
  "json DecoratorMetadataObject \<Rightarrow> key \<Rightarrow> string \<Rightarrow> string
     \<Rightarrow> (string \<times> oaPathItem) list \<Rightarrow> (string \<times> oaPathItem) list \<times> error option" where
  "operationBody md handlerName classPath methodPath oaPaths =
     (let p = classPath @ methodPath;
          m = toLowerCase (effectiveMethod md handlerName);
          oaPathItem =
            (case map_of oaPaths (oaPath p) of
               Some item \<Rightarrow> item
             | None \<Rightarrow>
                 \<lparr>pi_parameters = (if parameters p = [] then None else Some (parameters p)),
                  pi_operations = []\<rparr>)
      in if mapHas (pi_operations oaPathItem) m
         then (oaPaths, Some (DuplicatePathMethod m (oaPath p)))
         else
           case operationOf md handlerName of
             Inl e \<Rightarrow> (oaPaths, Some e)
           | Inr operation \<Rightarrow>
               (AList.update (oaPath p)
                  (oaPathItem\<lparr>pi_operations := AList.update m operation (pi_operations oaPathItem)\<rparr>)
                  oaPaths,
                None))"

definition synthesizeController ::
  "json controller \<Rightarrow> (string \<times> oaPathItem) list \<Rightarrow> (string \<times> oaPathItem) list \<times> error option" where
  "synthesizeController c oaPaths =
     (case c_metadata c of
        None \<Rightarrow> (oaPaths, None)
      | Some md \<Rightarrow>
          (case PATH md of
             None \<Rightarrow> (oaPaths, None)
           | Some pathMap \<Rightarrow>
               if pathMap = [] then (oaPaths, None)
               else
                 forOf (\<lambda>(handlerName, methodPaths) st.
                     if handlerName = CLASS_METADATA then (st, None)
                     else
                       forOf (\<lambda>classPath.
                           forOf (\<lambda>methodPath. operationBody md handlerName classPath methodPath)
                             methodPaths)
                         (classPaths md) st)
                   pathMap oaPaths))"

text \<open>
  \<open>componentsPattern\<close> is a string or an array of strings; \<open>if (componentsPattern)\<close> holds
  for every array and every non-empty string. \<open>Object.assign\<close> sets each key of the source
  on the target, in order.
\<close>

datatype componentsPattern = Glob string | Globs "string list"

definition isTruthy :: "componentsPattern \<Rightarrow> bool" where
  "isTruthy pat = (case pat of Glob s \<Rightarrow> s \<noteq> [] | Globs ss \<Rightarrow> True)"

definition assign :: "('k \<times> 'v) list \<Rightarrow> ('k \<times> 'v) list \<Rightarrow> ('k \<times> 'v) list" where
  "assign target source = foldl (\<lambda>t (k, v). AList.update k v t) target source"

definition mergeSchemas :: "'s openapi \<Rightarrow> (string \<times> 's) list \<Rightarrow> 's openapi" where
  "mergeSchemas openapi componentSchemas =
     (if componentSchemas = [] then openapi
      else
        (let comps = (case components openapi of
                        Some c \<Rightarrow> c
                      | None \<Rightarrow> \<lparr>schemas = None, co_other = []\<rparr>);
             target = (case schemas comps of Some t \<Rightarrow> t | None \<Rightarrow> [])
         in openapi\<lparr>components := Some (comps\<lparr>schemas := Some (assign target componentSchemas)\<rparr>)\<rparr>))"

text \<open>
  In this part of the model a value has no identity, so \<open>structuredClone\<close> returns its
  argument; the store of section "Object identity" tells a clone from its original.
\<close>

definition structuredClone :: "'a \<Rightarrow> 'a" where
  "structuredClone x = x"

text \<open>
  \<open>getOpenAPISchema\<close>. The first argument tells whether the host has \<open>Symbol.metadata\<close>; the
  second is \<open>generateSchemaDefinitions\<close> as the files on disk and the external schema
  generator make it behave: it throws (\<open>Inl\<close>, with the text of the error) or returns the
  schemas by name.
\<close>

definition getOpenAPISchema ::
  "bool \<Rightarrow> (componentsPattern \<Rightarrow> string + (string \<times> 's) list) \<Rightarrow> 's openapi \<Rightarrow> json controller list
     \<Rightarrow> componentsPattern option \<Rightarrow> error + 's openapi" where
  "getOpenAPISchema symbolMetadata generate baseOpenAPISchema controllers pattern =
     (if \<not> symbolMetadata then Inl MetadataUnavailable
      else
        (let openapi = structuredClone baseOpenAPISchema;
             oaPaths = (case paths openapi of Some ps \<Rightarrow> ps | None \<Rightarrow> [])
         in case forOf synthesizeController controllers oaPaths of
              (_, Some e) \<Rightarrow> Inl e
            | (oaPaths', None) \<Rightarrow>
                (let openapi' = openapi\<lparr>paths := Some oaPaths'\<rparr> in
                 case pattern of
                   None \<Rightarrow> Inr openapi'
                 | Some pat \<Rightarrow>
                     if \<not> isTruthy pat then Inr openapi'
                     else
                       case generate pat of
                         Inl msg \<Rightarrow>
                           Inl (SchemaDerivationFailure
                                  (''Could not generate components.schemas from the given type definitions.''
                                   @ [CHR 0x0A] @ msg))
                       | Inr componentSchemas \<Rightarrow> Inr (mergeSchemas openapi' componentSchemas))))"

subsection \<open>The operations of a controller list, in processing order\<close>

text \<open>
  An operation site is one iteration of the innermost loop: the metadata of the class, the
  handler, a class-level and a method-level path segment. \<open>operations\<close> lists the sites in
  the order in which both functions visit them. \<open>resolvesTo\<close> is the translated path and
  the lower-cased method a site is filed under; \<open>present\<close> tells whether a paths object has
  an operation there; \<open>buildable\<close> tells whether the operation object of a site can be
  built without a throw; \<open>step\<close> is the loop body on a site; \<open>registrationOf\<close> is the
  registrar call made for a record.
\<close>

type_synonym operationSite = "json DecoratorMetadataObject \<times> key \<times> string \<times> string"

definition operationsOf :: "json controller \<Rightarrow> operationSite list" where
  "operationsOf c =
     (case c_metadata c of
        None \<Rightarrow> []
      | Some md \<Rightarrow>
          concat (map (\<lambda>(h, mps).
              concat (map (\<lambda>classPath. map (\<lambda>methodPath. (md, h, classPath, methodPath)) mps)
                        (classPaths md)))
            (pathBearing c)))"

definition operations :: "json controller list \<Rightarrow> operationSite list" where
  "operations controllers = concat (map operationsOf controllers)"

definition sitePath :: "operationSite \<Rightarrow> string" where
  "sitePath = (\<lambda>(md, h, classPath, methodPath). classPath @ methodPath)"

definition siteMethod :: "operationSite \<Rightarrow> MethodMetadata" where
  "siteMethod = (\<lambda>(md, h, classPath, methodPath). effectiveMethod md h)"

definition resolvesTo :: "operationSite \<Rightarrow> string \<times> string" where
  "resolvesTo site = (oaPath (sitePath site), toLowerCase (siteMethod site))"

definition registrationOf :: "RegisteredControllerInfo \<Rightarrow> registration" where
  "registrationOf r = (toLowerCase (i_method r), i_path r, i_middlewares r, i_handler r)"

definition buildable :: "operationSite \<Rightarrow> bool" where
  "buildable = (\<lambda>(md, h, classPath, methodPath).
     case operationOf md h of Inr operation \<Rightarrow> True | Inl e \<Rightarrow> False)"

definition present :: "(string \<times> oaPathItem) list \<Rightarrow> string \<times> string \<Rightarrow> bool" where
  "present oaPaths = (\<lambda>(p, m).
     case map_of oaPaths p of Some item \<Rightarrow> mapHas (pi_operations item) m | None \<Rightarrow> False)"

definition step ::
  "operationSite \<Rightarrow> (string \<times> oaPathItem) list \<Rightarrow> (string \<times> oaPathItem) list \<times> error option" where
  "step = (\<lambda>(md, h, classPath, methodPath). operationBody md h classPath methodPath)"

section \<open>Object identity\<close>

text \<open>
  Where the source mutates objects that are shared, an object is a cell of a store: the
  store is the list of all objects, the address of an object is its index, a value is a
  primitive or the address of an object. A value \<open>VBuilt\<close> stands for an object that the
  function under study has built itself and keeps as a value.
\<close>

type_synonym addr = nat

datatype 'b jsval =
    VUndefined
  | VNull
  | VBool bool
  | VNum int
  | VStr string
  | VRef addr
  | VBuilt 'b

datatype 'b jsobject =
    Obj "(string \<times> 'b jsval) list"
  | Arr "'b jsval list" "(string \<times> 'b jsval) list"

type_synonym 'b store = "'b jsobject list"

text \<open>
  An array is an object too: besides its elements it has named properties. A key of an
  array is an index (the canonical decimal numeral of a number below \<open>2\<^sup>3\<^sup>2 - 1\<close>), or
  \<open>length\<close>, or a name. An array has no holes: an element that was never written reads as
  \<open>undefined\<close>.
\<close>

fun digitsValue :: "string \<Rightarrow> nat" where
  "digitsValue [] = 0"
| "digitsValue (c # s) = (of_char c - 48) * 10 ^ length s + digitsValue s"

definition arrayIndex :: "string \<Rightarrow> nat option" where
  "arrayIndex k =
     (if k \<noteq> [] \<and> list_all (inRange CHR ''0'' CHR ''9'') k \<and> (k = ''0'' \<or> hd k \<noteq> CHR ''0'')
         \<and> digitsValue k < 4294967295
      then Some (digitsValue k) else None)"

text \<open>
  Reading, testing (\<open>in\<close>), writing and deleting a property, writing an element of an
  array, and allocating a new object. A property is an own property; a missing one reads
  as \<open>undefined\<close>. Writing an index at or beyond the length of an array extends the array.
  \<open>setProp\<close> and \<open>deleteProp\<close> are not used with the key \<open>length\<close> on an array (they leave the
  array as it is): where the source may write that key, the write is \<open>assignProp\<close> below.
\<close>

definition getProp :: "'b store \<Rightarrow> addr \<Rightarrow> string \<Rightarrow> 'b jsval" where
  "getProp st a k =
     (if a < length st
      then (case st ! a of
              Obj kvs \<Rightarrow> (case map_of kvs k of Some v \<Rightarrow> v | None \<Rightarrow> VUndefined)
            | Arr vs kvs \<Rightarrow>
                (case arrayIndex k of
                   Some i \<Rightarrow> (if i < length vs then vs ! i else VUndefined)
                 | None \<Rightarrow>
                     if k = ''length'' then VNum (int (length vs))
                     else (case map_of kvs k of Some v \<Rightarrow> v | None \<Rightarrow> VUndefined)))
      else VUndefined)"

definition hasProp :: "'b store \<Rightarrow> addr \<Rightarrow> string \<Rightarrow> bool" where
  "hasProp st a k =
     (a < length st
      \<and> (case st ! a of
            Obj kvs \<Rightarrow> map_of kvs k \<noteq> None
          | Arr vs kvs \<Rightarrow>
              (case arrayIndex k of
                 Some i \<Rightarrow> i < length vs
               | None \<Rightarrow> k = ''length'' \<or> map_of kvs k \<noteq> None)))"

definition setProp :: "addr \<Rightarrow> string \<Rightarrow> 'b jsval \<Rightarrow> 'b store \<Rightarrow> 'b store" where
  "setProp a k v st =
     (if a < length st
      then (case st ! a of
              Obj kvs \<Rightarrow> st[a := Obj (AList.update k v kvs)]
            | Arr vs kvs \<Rightarrow>
                (case arrayIndex k of
                   Some i \<Rightarrow>
                     st[a := Arr (if i < length vs then vs[i := v]
                                  else vs @ replicate (i - length vs) VUndefined @ [v]) kvs]
                 | None \<Rightarrow>
                     if k = ''length'' then st
                     else st[a := Arr vs (AList.update k v kvs)]))
      else st)"

definition deleteProp :: "addr \<Rightarrow> string \<Rightarrow> 'b store \<Rightarrow> 'b store" where
  "deleteProp a k st =
     (if a < length st
      then (case st ! a of
              Obj kvs \<Rightarrow> st[a := Obj (AList.delete k kvs)]
            | Arr vs kvs \<Rightarrow>
                (case arrayIndex k of
                   Some i \<Rightarrow> st[a := Arr (vs[i := VUndefined]) kvs]
                 | None \<Rightarrow>
                     if k = ''length'' then st
                     else st[a := Arr vs (AList.delete k kvs)]))
      else st)"

definition setIndex :: "addr \<Rightarrow> nat \<Rightarrow> 'b jsval \<Rightarrow> 'b store \<Rightarrow> 'b store" where
  "setIndex a i v st =
     (if a < length st
      then (case st ! a of
              Arr vs kvs \<Rightarrow> st[a := Arr (vs[i := v]) kvs]
            | Obj kvs \<Rightarrow> st)
      else st)"

definition alloc :: "'b jsobject \<Rightarrow> 'b store \<Rightarrow> addr \<times> 'b store" where
  "alloc obj st = (length st, st @ [obj])"

subsection \<open>Schema aggregation: \<open>fixSchema\<close>\<close>

text \<open>
  \<open>target.$ref?.startsWith?.('#/definitions/')\<close> holds when \<open>target\<close> is an object whose
  \<open>$ref\<close> is a string with that prefix; \<open>definitionRef\<close> then gives the name, the string
  without the prefix. \<open>constToEnum\<close> is the statement
  \<open>if ('const' in target) { target.enum = [target.const]; delete target.const; }\<close>.
\<close>

definition startsWith :: "string \<Rightarrow> string \<Rightarrow> bool" where
  "startsWith s prefix = (take (length prefix) s = prefix)"

definition definitionRef :: "'b store \<Rightarrow> 'b jsval \<Rightarrow> string option" where
  "definitionRef st target =
     (case target of
        VRef t \<Rightarrow>
          (case getProp st t ''$ref'' of
             VStr s \<Rightarrow> if startsWith s ''#/definitions/''
                       then Some (drop (length ''#/definitions/'') s) else None
           | _ \<Rightarrow> None)
      | _ \<Rightarrow> None)"

definition constToEnum :: "addr \<Rightarrow> 'b store \<Rightarrow> 'b store" where
  "constToEnum t st =
     (if hasProp st t ''const''
      then (let (e, st1) = alloc (Arr [getProp st t ''const''] []) st
            in deleteProp t ''const'' (setProp t ''enum'' (VRef e) st1))
      else st)"

text \<open>
  The two branches of \<open>fixSchema\<close> differ only in how a slot of \<open>obj\<close> is named: by key
  (the keys that \<open>Object.keys\<close> lists when the loop starts) or by index. The function
  never changes the length of an array, so the indices are those of the start as well.
  The first argument bounds the depth of the recursion: the call stack of the host is
  finite, and a call that exceeds it throws a \<open>RangeError\<close>. A value \<open>VBuilt\<close> does not occur in
  a derived schema and is passed over.
\<close>

datatype slot = Key string | Index nat

definition readSlot :: "'b store \<Rightarrow> addr \<Rightarrow> slot \<Rightarrow> 'b jsval" where
  "readSlot st a s =
     (case s of
        Key k \<Rightarrow> getProp st a k
      | Index i \<Rightarrow>
          (if a < length st
           then (case st ! a of
                   Arr vs kvs \<Rightarrow> (if i < length vs then vs ! i else VUndefined)
                 | Obj kvs \<Rightarrow> VUndefined)
           else VUndefined))"

definition writeSlot :: "addr \<Rightarrow> slot \<Rightarrow> 'b jsval \<Rightarrow> 'b store \<Rightarrow> 'b store" where
  "writeSlot a s v st = (case s of Key k \<Rightarrow> setProp a k v st | Index i \<Rightarrow> setIndex a i v st)"

definition slots :: "'b store \<Rightarrow> addr \<Rightarrow> slot list" where
  "slots st a =
     (if a < length st
      then (case st ! a of
              Obj kvs \<Rightarrow> map (\<lambda>(k, v). Key k) kvs
            | Arr vs kvs \<Rightarrow> map Index [0..<length vs])
      else [])"

definition lookupDefinition :: "'b store \<Rightarrow> 'b jsval \<Rightarrow> string \<Rightarrow> 'b jsval" where
  "lookupDefinition st defs name = (case defs of VRef d \<Rightarrow> getProp st d name | _ \<Rightarrow> VUndefined)"

fun fixSchema :: "nat \<Rightarrow> addr \<Rightarrow> 'b jsval \<Rightarrow> 'b store \<Rightarrow> error + 'b store"
  and fixSlots :: "nat \<Rightarrow> addr \<Rightarrow> 'b jsval \<Rightarrow> slot list \<Rightarrow> 'b store \<Rightarrow> error + 'b store" where
  "fixSchema 0 obj defs st = Inl (RangeError ''Maximum call stack size exceeded'')"
| "fixSchema (Suc depth) obj defs st = fixSlots depth obj defs (slots st obj) st"
| "fixSlots depth obj defs [] st = Inr st"
| "fixSlots depth obj defs (s # ss) st =
     (case readSlot st obj s of
        VRef t \<Rightarrow>
          (case definitionRef st (VRef t) of
             Some name \<Rightarrow>
               fixSlots depth obj defs ss (writeSlot obj s (lookupDefinition st defs name) st)
           | None \<Rightarrow>
               (case fixSchema depth t defs (constToEnum t st) of
                  Inl e \<Rightarrow> Inl e
                | Inr st' \<Rightarrow> fixSlots depth obj defs ss st'))
      | _ \<Rightarrow> fixSlots depth obj defs ss st)"

text \<open>Truthiness of a value, as \<open>if (v)\<close> tests it.\<close>

definition truthyValue :: "'b jsval \<Rightarrow> bool" where
  "truthyValue v =
     (case v of
        VUndefined \<Rightarrow> False | VNull \<Rightarrow> False | VBool b \<Rightarrow> b | VNum n \<Rightarrow> n \<noteq> 0
      | VStr s \<Rightarrow> s \<noteq> [] | VRef a \<Rightarrow> True | VBuilt b \<Rightarrow> True)"

text \<open>
  \<open>generateSchemaDefinitions\<close>. The files that the pattern matches and the external schema
  generator are its input: for each file name (its base name), the generator throws,
  returns nothing, or returns a schema object, which lies in the store. The loop keys the
  post-processed schema by the file name up to its first dot.
\<close>

datatype derived = Throws string | Nothing | Schema addr

definition filenameWithoutExt :: "string \<Rightarrow> string" where
  "filenameWithoutExt filename = takeWhile (\<lambda>c. c \<noteq> CHR ''.'') filename"

definition postProcess :: "nat \<Rightarrow> addr \<Rightarrow> 'b store \<Rightarrow> error + 'b store" where
  "postProcess depth schema st =
     (let defs = getProp st schema ''definitions'' in
      if truthyValue defs
      then (case fixSchema depth schema defs st of
              Inl e \<Rightarrow> Inl e
            | Inr st' \<Rightarrow> Inr (deleteProp schema ''$schema'' (deleteProp schema ''definitions'' st')))
      else Inr (deleteProp schema ''$schema'' st))"

fun generateSchemaDefinitions ::
  "nat \<Rightarrow> (string \<times> derived) list \<Rightarrow> (string \<times> 'b jsval) list \<Rightarrow> 'b store
     \<Rightarrow> error + (string \<times> 'b jsval) list \<times> 'b store" where
  "generateSchemaDefinitions depth [] combinedSchemas st = Inr (combinedSchemas, st)"
| "generateSchemaDefinitions depth ((filename, d) # files) combinedSchemas st =
     (case d of
        Throws msg \<Rightarrow> Inl (GeneratorError msg)
      | Nothing \<Rightarrow> generateSchemaDefinitions depth files combinedSchemas st
      | Schema schema \<Rightarrow>
          (case postProcess depth schema st of
             Inl e \<Rightarrow> Inl e
           | Inr st' \<Rightarrow>
               generateSchemaDefinitions depth files
                 (AList.update (filenameWithoutExt filename) (VRef schema) combinedSchemas) st'))"

subsection \<open>Document synthesis on the store\<close>

text \<open>
  To tell the objects of the caller from those of the returned document,
  \<open>getOpenAPISchema\<close> is read once more, on the store. The base document is an object of
  the store; an object given to a decorator (a request body, the headers of a response) is
  the address of an object of the store; every statement that creates an object is an
  allocation, every statement that writes one a write to the store. A structure that the
  function builds from strings alone (the derived parameters, the tags, a schema
  reference, the clone of a response content) shares no object with anything and is
  written as a built value, and so is a schema that the generator returns. The caller's
  store holds no built value.
\<close>

datatype 's built = Built json | Generated 's




text \<open>
  \<open>o[k] = v\<close> for an object \<open>o\<close> and a value \<open>v\<close> that is a plain object: on an array the key
  \<open>length\<close> takes a number only, and the assignment throws a \<open>RangeError\<close>.
\<close>

definition isArray :: "'b store \<Rightarrow> addr \<Rightarrow> bool" where
  "isArray st a = (a < length st \<and> (case st ! a of Arr vs kvs \<Rightarrow> True | Obj kvs \<Rightarrow> False))"

definition assignProp :: "addr \<Rightarrow> string \<Rightarrow> 'b jsval \<Rightarrow> 'b store \<Rightarrow> 'b store \<times> error option" where
  "assignProp a k v st =
     (if isArray st a \<and> k = ''length'' then (st, Some (RangeError ''Invalid array length''))
      else (setProp a k v st, None))"

text \<open>
  The loops of \<open>getOpenAPISchema\<close> over the sites of a controller, with the body left open;
  \<open>if (!o.k) o.k = {}\<close>; the path item of a translated path, created with its derived
  parameters when \<open>openapi.paths\<close> has none.
\<close>

definition forEachSite ::
  "('o DecoratorMetadataObject \<Rightarrow> key \<Rightarrow> string \<Rightarrow> string \<Rightarrow> 'st \<Rightarrow> 'st \<times> error option)
     \<Rightarrow> 'o controller \<Rightarrow> 'st \<Rightarrow> 'st \<times> error option" where
  "forEachSite body c st =
     (case c_metadata c of
        None \<Rightarrow> (st, None)
      | Some md \<Rightarrow>
          (case PATH md of
             None \<Rightarrow> (st, None)
           | Some pathMap \<Rightarrow>
               if pathMap = [] then (st, None)
               else
                 forOf (\<lambda>(handlerName, methodPaths) st.
                     if handlerName = CLASS_METADATA then (st, None)
                     else
                       forOf (\<lambda>classPath.
                           forOf (\<lambda>methodPath. body md handlerName classPath methodPath)
                             methodPaths)
                         (classPaths md) st)
                   pathMap st))"


definition ensurePathItem :: "addr \<Rightarrow> string \<Rightarrow> 's built store \<Rightarrow> 's built store \<times> error option" where
  "ensurePathItem oaPaths p st =
     (if truthyValue (getProp st oaPaths (oaPath p)) then (st, None)
      else (let (new, st') = alloc (Obj []) st in
            case assignProp oaPaths (oaPath p) (VRef new) st' of
              (st'', Some e) \<Rightarrow> (st'', Some e)
            | (st'', None) \<Rightarrow>
                (if parameters p = [] then st''
                 else setProp new ''parameters'' (VBuilt (Built (JArr (parameters p)))) st'',
                 None)))"


text \<open>
  The statements that fill the new operation object \<open>oaOperation\<close>, in the order of the
  source. A request body given as an object is stored as it is, by reference.
\<close>

definition setText :: "addr \<Rightarrow> string \<Rightarrow> string option \<Rightarrow> 'b store \<Rightarrow> 'b store" where
  "setText a k str st = (case str of Some s \<Rightarrow> setProp a k (VStr s) st | None \<Rightarrow> st)"

definition setTags :: "addr DecoratorMetadataObject \<Rightarrow> key \<Rightarrow> addr \<Rightarrow> 's built store \<Rightarrow> 's built store" where
  "setTags md handlerName oaOperation st =
     (let classTags = (case mapGet (TAG md) CLASS_METADATA of Some ts \<Rightarrow> ts | None \<Rightarrow> []);
          tags = uniqFrom []
                   (classTags @ (case mapGet (TAG md) handlerName of Some ts \<Rightarrow> ts | None \<Rightarrow> []))
      in if tags = [] then st
         else setProp oaOperation ''tags'' (VBuilt (Built (JArr (map JStr tags)))) st)"

definition setOperationId :: "addr DecoratorMetadataObject \<Rightarrow> key \<Rightarrow> addr \<Rightarrow> 'b store \<Rightarrow> 'b store" where
  "setOperationId md handlerName oaOperation st =
     (case truthy (mapGet (OPERATION_ID md) handlerName) of
        Some i \<Rightarrow> setProp oaOperation ''operationId'' (VStr i) st
      | None \<Rightarrow>
          (case handlerName of
             Member (Str n) \<Rightarrow> setProp oaOperation ''operationId'' (VStr n) st
           | _ \<Rightarrow> st))"

definition setRequestBody ::
  "addr DecoratorMetadataObject \<Rightarrow> key \<Rightarrow> addr \<Rightarrow> 's built store \<Rightarrow> 's built store" where
  "setRequestBody md handlerName oaOperation st =
     (let classRequestBody = mapGet (REQUEST_BODY md) CLASS_METADATA in
      case (case mapGet (REQUEST_BODY md) handlerName of
              Some b \<Rightarrow> Some b
            | None \<Rightarrow> classRequestBody) of
        Some (BodyName n) \<Rightarrow>
          setProp oaOperation ''requestBody'' (VBuilt (Built (requestBodyObject (BodyName n)))) st
      | Some (BodyObject body) \<Rightarrow> setProp oaOperation ''requestBody'' (VRef body) st
      | None \<Rightarrow> st)"











definition given :: "addr DecoratorMetadataObject \<Rightarrow> addr list" where
  "given md =
     concat (map (\<lambda>(k, b). case b of BodyObject body \<Rightarrow> [body] | BodyName n \<Rightarrow> [])
               (orNewMap (REQUEST_BODY md)))
     @ concat (map (\<lambda>(k, rs). concat (map (\<lambda>r. case r_headers r of Some h \<Rightarrow> [h] | None \<Rightarrow> []) rs))
                 (orNewMap (RESPONSE md)))"




definition entryOk :: "nat \<Rightarrow> nat \<Rightarrow> addr set \<Rightarrow> nat \<Rightarrow> addr \<Rightarrow> string option \<times> 'b jsval \<Rightarrow> bool" where
  "entryOk n m D len a = (\<lambda>(k, v).
     case v of
       VRef b \<Rightarrow> (n \<le> b \<and> b < len)
                 \<or> (b \<in> D \<and> m \<le> a \<and> (k = Some ''requestBody'' \<or> k = Some ''headers''))
     | _ \<Rightarrow> True)"




section \<open>Example annotation stores\<close>

definition emptyDocument :: "unit openapi" where
  "emptyDocument = \<lparr>paths = None, components = None, o_other = []\<rparr>"

definition noSchemas :: "componentsPattern \<Rightarrow> string + (string \<times> unit) list" where
  "noSchemas pat = Inr []"

definition bareTuple :: "int \<Rightarrow> json ResponseMetadata" where
  "bareTuple code = \<lparr>r_code = code, r_content = None, r_description = None, r_headers = None\<rparr>"

text \<open>
  A class with one method \<open>create\<close>, decorated \<open>@path('/widgets')\<close> and \<open>@response(201)\<close>.
\<close>

definition create201 :: "json DecoratorMetadataObject" where
  "create201 =
     emptyMetadata
       \<lparr>PATH := Some [(Member (Str ''create''), [''/widgets''])],
        RESPONSE := Some [(Member (Str ''create''), [bareTuple 201])]\<rparr>"

text \<open>
  A class decorated \<open>@response(200, 'Widget', 'All widgets', headers)\<close> with one method
  \<open>list\<close>, decorated \<open>@path('/widgets')\<close> and \<open>@response(200)\<close>.
\<close>

definition widgetHeaders :: json where
  "widgetHeaders = JObj [(''X-Total'', JObj [(''schema'', JObj [(''type'', JStr ''integer'')])])]"

definition widgetsClassTuple :: "json ResponseMetadata" where
  "widgetsClassTuple =
     \<lparr>r_code = 200, r_content = Some (ContentName ''Widget''),
      r_description = Some ''All widgets'', r_headers = Some widgetHeaders\<rparr>"

definition widgetsMetadata :: "json DecoratorMetadataObject" where
  "widgetsMetadata =
     emptyMetadata
       \<lparr>PATH := Some [(Member (Str ''list''), [''/widgets''])],
        RESPONSE := Some [(Member (Str ''list''), [bareTuple 200]),
                          (CLASS_METADATA, [widgetsClassTuple])]\<rparr>"

text \<open>
  The reading of the responses that overwrites field by field: a later tuple of the same
  code replaces only the fields it supplies.
\<close>

definition overwriteFields_spec :: "json ResponseMetadata \<Rightarrow> json ResponseMetadata \<Rightarrow> json ResponseMetadata" where
  "overwriteFields_spec earlier later =
     \<lparr>r_code = r_code later,
      r_content = (case r_content later of Some c \<Rightarrow> Some c | None \<Rightarrow> r_content earlier),
      r_description = (case r_description later of Some d \<Rightarrow> Some d | None \<Rightarrow> r_description earlier),
      r_headers = (case r_headers later of Some h \<Rightarrow> Some h | None \<Rightarrow> r_headers earlier)\<rparr>"

text \<open>The context of a method \<open>list\<close> in a class that has no annotation yet.\<close>

definition listContext :: "json decoratorContext" where
  "listContext = \<lparr>ctx_kind = Method, ctx_name = Str ''list'', ctx_metadata = Some emptyMetadata\<rparr>"

text \<open>
  A class with two path segments and two methods of two segments each, in the order in
  which the decorators are applied (bottom-up, the class last).
\<close>

definition userMetadata :: "json DecoratorMetadataObject" where
  "userMetadata =
     emptyMetadata
       \<lparr>PATH := Some [(Member (Str ''loginFn''), [''/auth'', ''/login'']),
                       (Member (Str ''profile''), [''/me'', ''/profile'']),
                       (CLASS_METADATA, [''/v2'', ''/v1''])]\<rparr>"

definition userController :: "json controller" where
  "userController =
     \<lparr>c_id = 0, c_metadata = Some userMetadata, c_functions = [Str ''loginFn'', Str ''profile'']\<rparr>"

text \<open>
  Two controllers whose only paths translate to the same path, and base documents that
  have a path item for that path already.
\<close>

definition itemA :: "json controller" where
  "itemA = \<lparr>c_id = 0,
             c_metadata = Some (emptyMetadata\<lparr>PATH := Some [(Member (Str ''get''), [''/w/:id''])]\<rparr>),
             c_functions = [Str ''get'']\<rparr>"

definition itemB :: "json controller" where
  "itemB = \<lparr>c_id = 1,
             c_metadata = Some (emptyMetadata\<lparr>PATH := Some [(Member (Str ''find''), [''/w/:id([0-9]+)''])]\<rparr>),
             c_functions = [Str ''find'']\<rparr>"

text \<open>
  A class decorated \<open>@path('/v1')\<close> whose metadata lists two method sites with a path: \<open>list\<close>,
  a method of the instances, and \<open>ping\<close>, which is no property of an instance (a static
  method, or a method of a subclass, whose decorators write into the \<open>Map\<close> the subclass
  inherits).
\<close>

definition staticMetadata :: "json DecoratorMetadataObject" where
  "staticMetadata =
     emptyMetadata
       \<lparr>PATH := Some [(Member (Str ''list''), [''/list'']),
                       (Member (Str ''ping''), [''/ping'']),
                       (CLASS_METADATA, [''/v1''])]\<rparr>"

definition staticController :: "json controller" where
  "staticController = \<lparr>c_id = 0, c_metadata = Some staticMetadata, c_functions = [Str ''list'']\<rparr>"

text \<open>
  \<open>a201\<close> is \<open>itemA\<close> with \<open>@response(201)\<close> on its method; \<open>itemStatic\<close> is \<open>itemB\<close> with its
  method static; \<open>first201\<close> has a method \<open>create\<close>, decorated \<open>@path('/widgets')\<close> and
  \<open>@response(201)\<close>, followed by the method of \<open>itemA\<close>.
\<close>

definition a201 :: "json controller" where
  "a201 = \<lparr>c_id = 0,
            c_metadata = Some (emptyMetadata
              \<lparr>PATH := Some [(Member (Str ''get''), [''/w/:id''])],
               RESPONSE := Some [(Member (Str ''get''), [bareTuple 201])]\<rparr>),
            c_functions = [Str ''get'']\<rparr>"

definition itemStatic :: "json controller" where
  "itemStatic = \<lparr>c_id = 1,
             c_metadata = Some (emptyMetadata\<lparr>PATH := Some [(Member (Str ''find''), [''/w/:id([0-9]+)''])]\<rparr>),
             c_functions = []\<rparr>"





text \<open>
  Derived schemas: of \<open>export type Status = 'active'\<close>; of an object type with a property
  of a literal type; of a type that refers to an alias \<open>A\<close> of a type \<open>B\<close>.
\<close>

definition statusSchema :: "unit store" where
  "statusSchema =
     [Obj [(''$schema'', VStr ''http://json-schema.org/draft-07/schema#''),
           (''type'', VStr ''string''), (''const'', VStr ''active''), (''definitions'', VRef 1)],
      Obj []]"

definition eventSchema :: "unit store" where
  "eventSchema =
     [Obj [(''$schema'', VStr ''http://json-schema.org/draft-07/schema#''),
           (''type'', VStr ''object''), (''properties'', VRef 2), (''definitions'', VRef 1)],
      Obj [],
      Obj [(''kind'', VRef 3)],
      Obj [(''type'', VStr ''string''), (''const'', VStr ''created'')]]"

definition aliasSchema :: "unit store" where
  "aliasSchema =
     [Obj [(''$schema'', VStr ''http://json-schema.org/draft-07/schema#''),
           (''type'', VStr ''object''), (''properties'', VRef 2), (''definitions'', VRef 1)],
      Obj [(''A'', VRef 3), (''B'', VRef 4)],
      Obj [(''x'', VRef 5)],
      Obj [(''$ref'', VStr ''#/definitions/B'')],
      Obj [(''type'', VStr ''string''), (''const'', VStr ''b'')],
      Obj [(''$ref'', VStr ''#/definitions/A'')]]"







section \<open>Status codes as text: the text determines the code\<close>

lemma digitsValue_append: "digitsValue (s @ [c]) = digitsValue s * 10 + (of_char c - 48)"
  by (induction s) (simp_all add: algebra_simps)

lemma of_char_digitChar: "d < 10 \<Longrightarrow> of_char (digitChar d) = 48 + d"
  by (simp add: digitChar_def)

lemma digitsValue_natStr: "digitsValue (natStr n) = n"
proof (induction n rule: natStr.induct)
  case (1 n)
  show ?case
  proof (cases "n < 10")
    case True
    then show ?thesis by (subst natStr.simps) (simp add: of_char_digitChar)
  next
    case False
    with 1 have "digitsValue (natStr (n div 10)) = n div 10" by simp
    with False show ?thesis
      by (subst natStr.simps) (simp add: digitsValue_append of_char_digitChar)
  qed
qed

lemma natStr_head_digit: "hd (natStr n) \<noteq> CHR ''-'' \<and> natStr n \<noteq> []"
proof (induction n rule: natStr.induct)
  case (1 n)
  show ?case
  proof (cases "n < 10")
    case True
    then have "of_char (digitChar n) = 48 + n" by (simp add: of_char_digitChar)
    then have "digitChar n \<noteq> CHR ''-''" by auto
    with True show ?thesis by (subst (1 2) natStr.simps) simp
  next
    case False
    with 1 show ?thesis by (subst (1 2) natStr.simps) simp
  qed
qed

lemma String_of_inj: "String_of a = String_of b \<Longrightarrow> a = b"
proof -
  assume eq: "String_of a = String_of b"
  have neg: "\<And>x y. x < 0 \<Longrightarrow> \<not> y < 0 \<Longrightarrow> String_of x \<noteq> String_of y"
  proof
    fix x y :: int assume "x < 0" "\<not> y < 0" "String_of x = String_of y"
    then have "hd (natStr (nat y)) = CHR ''-''" by (simp add: String_of_def) (metis list.sel(1))
    with natStr_head_digit show False by blast
  qed
  show ?thesis
  proof (cases "a < 0"; cases "b < 0")
    assume "a < 0" "b < 0"
    with eq have "digitsValue (natStr (nat (- a))) = digitsValue (natStr (nat (- b)))"
      by (simp add: String_of_def)
    with \<open>a < 0\<close> \<open>b < 0\<close> show ?thesis by (simp add: digitsValue_natStr)
  next
    assume "\<not> a < 0" "\<not> b < 0"
    with eq have "digitsValue (natStr (nat a)) = digitsValue (natStr (nat b))"
      by (simp add: String_of_def)
    with \<open>\<not> a < 0\<close> \<open>\<not> b < 0\<close> show ?thesis by (simp add: digitsValue_natStr)
  qed (use eq neg in \<open>auto dest: sym\<close>)
qed

lemma String_of_default_codes:
  "String_of 200 = ''200''" "String_of 204 = ''204''" "String_of 400 = ''400''"
  "String_of 401 = ''401''" "String_of 403 = ''403''" "String_of 404 = ''404''"
  "String_of 500 = ''500''"
  by code_simp+

lemma defaultResponses_keys:
  "map_of defaultResponses (String_of code) = None
     \<longleftrightarrow> code \<notin> {200, 204, 400, 401, 403, 404, 500}"
proof -
  have "map_of defaultResponses k = None
          \<longleftrightarrow> k \<notin> {String_of 200, String_of 204, String_of 400, String_of 401, String_of 403,
                   String_of 404, String_of 500}" for k
    by (simp add: defaultResponses_def String_of_default_codes)
  then show ?thesis by (auto dest: String_of_inj)
qed

section \<open>The responses of an operation\<close>

text \<open>
  A response tuple without content whose code has no built-in default makes the loop body
  throw: the \<open>in\<close> operator is applied to \<open>undefined\<close>. The description, resolved by the
  next statement with \<open>?.\<close>, would have been \<open>'Response'\<close>.
\<close>

lemma responseEntry_absent_content_throws:
  assumes "r_content r = None" and "r_code r \<notin> {200, 204, 400, 401, 403, 404, 500}"
  shows "responseEntry r = Inl (TypeError ''in operator: right operand is undefined'')"
proof -
  from assms(2) have "map_of defaultResponses (String_of (r_code r)) = None"
    using defaultResponses_keys by blast
  with assms(1) show ?thesis
    by (simp add: responseEntry_def resolveUserContent_def Let_def)
qed

lemma resolveDescription_other_code:
  assumes "code \<notin> {200, 204, 400, 401, 403, 404, 500}"
  shows "resolveDescription (String_of code) None = ''Response''"
proof -
  from assms have "map_of defaultResponses (String_of code) = None"
    using defaultResponses_keys by blast
  then show ?thesis by (simp add: resolveDescription_def)
qed

text \<open>
  C1. The claim: a response tuple without content whose status code is not a built-in
  default yields a response entry with no content and the description \<open>'Response'\<close>, and
  synthesis does not fail. On the class with \<open>@path('/widgets') @response(201)\<close> synthesis
  throws the \<open>TypeError\<close> of the \<open>in\<close> operator instead.
\<close>

theorem C1_response_201_without_content_throws:
  "getOpenAPISchema True noSchemas emptyDocument
     [\<lparr>c_id = 0, c_metadata = Some create201, c_functions = [Str ''create'']\<rparr>] None
   = Inl (TypeError ''in operator: right operand is undefined'')"
  by code_simp

lemma responseEntry_key: "responseEntry r = Inr (k, e) \<Longrightarrow> k = String_of (r_code r)"
  by (auto simp: responseEntry_def Let_def split: sum.splits)

lemma oaResponsesLoop_lookup:
  "oaResponsesLoop rs acc = Inr out \<Longrightarrow>
   map_of out k =
     (case filter (\<lambda>x. String_of (r_code x) = k) rs of
        [] \<Rightarrow> map_of acc k
      | f # fs \<Rightarrow> (case responseEntry (last (f # fs)) of Inr (c, e) \<Rightarrow> Some e | Inl err \<Rightarrow> None))"
proof (induction rs arbitrary: acc)
  case Nil
  then show ?case by simp
next
  case (Cons r rs)
  from Cons.prems obtain c e where re: "responseEntry r = Inr (c, e)"
    and loop: "oaResponsesLoop rs (AList.update c e acc) = Inr out"
    by (auto split: sum.splits)
  from re have c: "c = String_of (r_code r)" by (rule responseEntry_key)
  note IH = Cons.IH [OF loop]
  show ?case
  proof (cases "filter (\<lambda>x. String_of (r_code x) = k) rs")
    case Nil
    with IH re c show ?thesis by (auto simp: update_conv')
  next
    case (Cons f fs)
    with IH show ?thesis by simp
  qed
qed

lemma oaResponsesLoop_distinct:
  "oaResponsesLoop rs acc = Inr out \<Longrightarrow> distinct (map fst acc) \<Longrightarrow> distinct (map fst out)"
proof (induction rs arbitrary: acc)
  case Nil
  then show ?case by simp
next
  case (Cons r rs)
  from Cons.prems obtain c e where "oaResponsesLoop rs (AList.update c e acc) = Inr out"
    by (auto split: sum.splits)
  moreover have "distinct (map fst (AList.update c e acc))"
    using Cons.prems(2) by (simp add: distinct_update)
  ultimately show ?case by (rule Cons.IH)
qed

lemma oaResponsesLoop_entries:
  "x \<in> set rs \<Longrightarrow> oaResponsesLoop rs acc = Inr out \<Longrightarrow> \<exists>c e. responseEntry x = Inr (c, e)"
  by (induction rs arbitrary: acc) (auto split: sum.splits)

lemma operationOf_responses:
  assumes "operationOf md h = Inr operation" and "responsesFor md h \<noteq> []"
  shows "\<exists>out. oaResponsesLoop (responsesFor md h) [] = Inr out \<and> op_responses operation = Some out"
  using assms by (auto simp: operationOf_def Let_def split: sum.splits)

text \<open>
  C2, as amended. When the operation of a handler is built, the response tuples of the
  class followed by those of the method give one entry per status code, and the entry of
  a code is the entry of the last tuple with that code, taken alone: every iteration
  assigns a whole new object, so nothing of an earlier tuple of the same code remains.
\<close>

theorem C2_last_tuple_replaces_entry:
  assumes "operationOf md handlerName = Inr operation"
    and "r \<in> set (responsesFor md handlerName)"
  shows "\<exists>out e. op_responses operation = Some out \<and> distinct (map fst out)
           \<and> responseEntry (last (filter (\<lambda>x. String_of (r_code x) = String_of (r_code r))
                                     (responsesFor md handlerName)))
               = Inr (String_of (r_code r), e)
           \<and> map_of out (String_of (r_code r)) = Some e"
proof -
  let ?k = "String_of (r_code r)"
  let ?fs = "filter (\<lambda>x. String_of (r_code x) = ?k) (responsesFor md handlerName)"
  from assms(2) have ne: "responsesFor md handlerName \<noteq> []" by auto
  from operationOf_responses [OF assms(1) ne] obtain out
    where loop: "oaResponsesLoop (responsesFor md handlerName) [] = Inr out"
      and out: "op_responses operation = Some out" by blast
  from assms(2) have "r \<in> set ?fs" by simp
  then obtain f fs where fs: "?fs = f # fs" by (cases ?fs) auto
  have d: "distinct (map fst out)" using oaResponsesLoop_distinct [OF loop] by simp
  have mem: "last ?fs \<in> set ?fs" using fs by (metis last_in_set list.distinct(1))
  then have lk: "String_of (r_code (last ?fs)) = ?k" by simp
  have lastin: "last ?fs \<in> set (responsesFor md handlerName)"
    using mem by simp
  from oaResponsesLoop_entries [OF lastin loop]
  obtain c e where re: "responseEntry (last ?fs) = Inr (c, e)" by blast
  with responseEntry_key lk have c: "c = ?k" by metis
  from oaResponsesLoop_lookup [OF loop, of ?k] fs re have "map_of out ?k = Some e"
    by simp
  with out d re c show ?thesis by blast
qed

text \<open>
  The theorem on the class \<open>widgetsMetadata\<close>: the entry for 200 is the one of the
  method-level \<open>@response(200)\<close> alone.
\<close>

theorem C2_last_tuple_replaces_entry_witness:
  "operationOf widgetsMetadata (Member (Str ''list''))
     = Inr \<lparr>op_tags = None, op_summary = None, op_description = None,
            op_operationId = Some ''list'', op_requestBody = None,
            op_responses =
              Some [(''200'', \<lparr>oa_description = ''Successful request'',
                               oa_content = Some (textPlain [(''type'', JStr ''string'')]),
                               oa_headers = None\<rparr>)]\<rparr>
   \<and> widgetsClassTuple \<in> set (responsesFor widgetsMetadata (Member (Str ''list'')))
   \<and> (\<exists>e. responseEntry
             (last (filter (\<lambda>x. String_of (r_code x) = String_of (r_code widgetsClassTuple))
                      (responsesFor widgetsMetadata (Member (Str ''list'')))))
           = Inr (String_of (r_code widgetsClassTuple), e)
         \<and> map_of [(''200'', \<lparr>oa_description = ''Successful request'',
                                oa_content = Some (textPlain [(''type'', JStr ''string'')]),
                                oa_headers = None\<rparr>)]
              (String_of (r_code widgetsClassTuple)) = Some e)"
proof -
  have h1: "operationOf widgetsMetadata (Member (Str ''list''))
     = Inr \<lparr>op_tags = None, op_summary = None, op_description = None,
            op_operationId = Some ''list'', op_requestBody = None,
            op_responses =
              Some [(''200'', \<lparr>oa_description = ''Successful request'',
                               oa_content = Some (textPlain [(''type'', JStr ''string'')]),
                               oa_headers = None\<rparr>)]\<rparr>"
    by code_simp
  have h2: "widgetsClassTuple \<in> set (responsesFor widgetsMetadata (Member (Str ''list'')))"
    by code_simp
  from C2_last_tuple_replaces_entry [OF h1 h2] h1 h2 show ?thesis by auto
qed

text \<open>
  C2 as stated fails on the same class: overwriting field by field would keep the
  content, the description and the headers of the class-level tuple, and give the entry
  of the merged tuple; the source gives the defaults of 200 and no headers.
\<close>

theorem C2_fieldwise_overwrite_counterexample:
  "oaResponsesLoop [widgetsClassTuple, bareTuple 200] []
     \<noteq> oaResponsesLoop [overwriteFields_spec widgetsClassTuple (bareTuple 200)] []
   \<and> oaResponsesLoop [widgetsClassTuple, bareTuple 200] []
       = Inr [(''200'', \<lparr>oa_description = ''Successful request'',
                         oa_content = Some (textPlain [(''type'', JStr ''string'')]),
                         oa_headers = None\<rparr>)]
   \<and> r_headers (overwriteFields_spec widgetsClassTuple (bareTuple 200)) = Some widgetHeaders"
  by code_simp

section \<open>The path template translator\<close>

declare oaPath.simps(2) [simp del] parameters.simps(2) [simp del]

lemma oaPath_None: "matchParam (c # t) = None \<Longrightarrow> oaPath (c # t) = c # oaPath t"
  by (simp add: oaPath.simps(2))

lemma oaPath_Some:
  "matchParam (c # t) = Some (name, pattern, rest) \<Longrightarrow> oaPath (c # t) = ''{'' @ name @ ''}'' @ oaPath rest"
  by (simp add: oaPath.simps(2))

lemma parameters_None: "matchParam (c # t) = None \<Longrightarrow> parameters (c # t) = parameters t"
  by (simp add: parameters.simps(2))

lemma parameters_Some:
  "matchParam (c # t) = Some (name, pattern, rest)
     \<Longrightarrow> parameters (c # t) = parameterObject name pattern # parameters rest"
  by (simp add: parameters.simps(2))

lemma matchParam_None_iff:
  "matchParam (c # t) = None \<longleftrightarrow> \<not> (c = CHR '':'' \<and> t \<noteq> [] \<and> isNameChar (hd t))"
  by (auto simp: matchParam_def Let_def takeWhile_eq_Nil_iff split: list.splits option.splits)

lemma no_parameter_unchanged: "\<not> hasParameter p \<Longrightarrow> oaPath p = p \<and> parameters p = []"
proof (induction p rule: hasParameter.induct)
  case 1
  then show ?case by simp
next
  case (2 c)
  have "matchParam [c] = None" by (simp add: matchParam_None_iff)
  then show ?case by (simp add: oaPath_None parameters_None)
next
  case (3 c d s)
  then have "matchParam (c # d # s) = None" by (simp add: matchParam_None_iff)
  with 3 show ?case by (simp add: oaPath_None parameters_None)
qed

lemma parameters_iff_hasParameter: "parameters p \<noteq> [] \<longleftrightarrow> hasParameter p"
proof (induction p rule: hasParameter.induct)
  case 1
  then show ?case by simp
next
  case (2 c)
  have "matchParam [c] = None" by (simp add: matchParam_None_iff)
  then show ?case by (simp add: parameters_None)
next
  case (3 c d s)
  show ?case
  proof (cases "matchParam (c # d # s)")
    case None
    then have "\<not> (c = CHR '':'' \<and> isNameChar d)" by (simp add: matchParam_None_iff)
    with 3 None show ?thesis by (auto simp: parameters_None)
  next
    case (Some m)
    then have "c = CHR '':'' \<and> isNameChar d" using matchParam_None_iff [of c "d # s"] by auto
    moreover obtain n p r where "m = (n, p, r)" by (cases m)
    ultimately show ?thesis using Some by (simp add: parameters_Some)
  qed
qed






lemma oaPath_skip_prefix:
  "CHR '':'' \<notin> set pre \<Longrightarrow> oaPath (pre @ s) = pre @ oaPath s"
proof (induction pre)
  case Nil
  then show ?case by simp
next
  case (Cons c pre)
  then have "matchParam (c # pre @ s) = None" by (auto simp: matchParam_None_iff)
  with Cons show ?case by (simp add: oaPath_None)
qed

lemma scanGroup_nonempty:
  "scanGroup acc fb s = Some (p, r) \<Longrightarrow> (\<forall>q r'. fb = Some (q, r') \<longrightarrow> q \<noteq> []) \<Longrightarrow> p \<noteq> []"
proof (induction acc fb s rule: scanGroup.induct)
  case (1 acc fallback)
  then show ?case by simp
next
  case (2 acc fallback c)
  then show ?case by (auto split: if_splits)
next
  case (3 acc fallback c d s)
  then show ?case by (auto split: if_splits)
qed

lemma matchParam_pattern_nonempty:
  "matchParam s = Some (name, Some p, rest) \<Longrightarrow> p \<noteq> []"
  by (auto simp: matchParam_def Let_def split: list.splits if_splits option.splits
           dest: scanGroup_nonempty)


text \<open>
  C9. A path without a parameter occurrence, that is without a colon directly followed by
  a name character, is translated to itself, with an empty parameter list; translating
  the result again changes nothing.
\<close>

theorem C9_no_parameters_identity:
  assumes "\<not> hasParameter p"
  shows "oaPath p = p \<and> parameters p = [] \<and> oaPath (oaPath p) = oaPath p"
  using no_parameter_unchanged [OF assms] by simp

theorem C9_no_parameters_identity_witness:
  "\<not> hasParameter ''/users/list'' \<and> oaPath ''/users/list'' = ''/users/list''
   \<and> parameters ''/users/list'' = [] \<and> oaPath (oaPath ''/users/list'') = oaPath ''/users/list''"
proof -
  have h: "\<not> hasParameter ''/users/list''" by (simp add: isNameChar_def inRange_def)
  from C9_no_parameters_identity [OF h] h show ?thesis by simp
qed

text \<open>
  For every match of the regular expression, whatever it captured: the parameter pushed
  has the enumeration when every character of the captured pattern is a letter, a digit,
  an underscore or a bar, the pattern as it is otherwise, and the plain string schema
  when the group did not take part.
\<close>

lemma every_match_schema:
  assumes "matchParam s = Some (name, pattern, rest)"
  shows "parameters s
           = JObj [(''name'', JStr name), (''in'', JStr ''path''), (''required'', JBool True),
                   (''schema'',
                    case pattern of
                      None \<Rightarrow> JObj [(''type'', JStr ''string'')]
                    | Some p \<Rightarrow>
                        if \<forall>c\<in>set p. isNameChar c \<or> c = CHR ''|''
                        then JObj [(''type'', JStr ''string''),
                                   (''enum'', JArr (map JStr (splitOn CHR ''|'' p)))]
                        else JObj [(''type'', JStr ''string''), (''pattern'', JStr p)])]
             # parameters rest"
proof -
  from assms obtain c t where s: "s = c # t" by (cases s) (simp_all add: matchParam_def)
  with assms have p: "parameters s = parameterObject name pattern # parameters rest"
    by (simp add: parameters_Some)
  show ?thesis
  proof (cases pattern)
    case None
    with p show ?thesis by (simp add: parameterObject_def parameterSchema_def)
  next
    case (Some pat)
    with assms have "pat \<noteq> []" by (simp add: matchParam_pattern_nonempty)
    then have "enumRegex pat \<longleftrightarrow> (\<forall>c\<in>set pat. isNameChar c \<or> c = CHR ''|'')"
      by (simp add: enumRegex_def list_all_iff)
    with p Some \<open>pat \<noteq> []\<close> show ?thesis
      by (simp add: parameterObject_def parameterSchema_def)
  qed
qed



text \<open>
  An escaped close parenthesis does not end the pattern; the translated path drops the
  pattern.
\<close>

lemma escaped_parenthesis_example:
  "matchParam ('':id(a'' @ [CHR 0x5C] @ '')b)/x'') = Some (''id'', Some (''a'' @ [CHR 0x5C] @ '')b''), ''/x'')"
  "oaPath (''/v/:id(a'' @ [CHR 0x5C] @ '')b)/x'') = ''/v/{id}/x''"
  by code_simp+

section \<open>Applying an annotation twice\<close>

lemma mapHas_update: "mapHas (AList.update k v m) k"
  by (simp add: mapHas_def update_conv')

lemma classOrMethodKey_after [simp]: "classOrMethodKey (after ctx md) = classOrMethodKey ctx"
  by (simp add: classOrMethodKey_def after_def)

lemma methodDecorator_twice:
  "methodDecorator m1 ctx = Inr md1 \<Longrightarrow> methodDecorator m2 (after ctx md1) = Inl DuplicateAnnotation"
  by (auto simp: methodDecorator_def after_def Let_def orNewMap_def mapHas_def update_conv' classOrMethodKey_def
           split: if_splits option.splits)

lemma summary_twice:
  "summary v1 ctx = Inr md1 \<Longrightarrow> summary v2 (after ctx md1) = Inl DuplicateAnnotation"
  by (auto simp: summary_def after_def Let_def orNewMap_def mapHas_def update_conv'
           split: if_splits option.splits)

lemma description_twice:
  "description v1 ctx = Inr md1 \<Longrightarrow> description v2 (after ctx md1) = Inl DuplicateAnnotation"
  by (auto simp: description_def after_def Let_def orNewMap_def mapHas_def update_conv'
           split: if_splits option.splits)

lemma operationId_twice:
  "operationId v1 ctx = Inr md1 \<Longrightarrow> operationId v2 (after ctx md1) = Inl DuplicateAnnotation"
  by (auto simp: operationId_def after_def Let_def orNewMap_def mapHas_def update_conv'
           split: if_splits option.splits)

lemma requestBody_twice:
  "requestBody v1 ctx = Inr md1 \<Longrightarrow> requestBody v2 (after ctx md1) = Inl DuplicateAnnotation"
  by (auto simp: requestBody_def after_def Let_def orNewMap_def mapHas_def update_conv'
           split: if_splits option.splits)

lemma pushAll_get: "map_of (pushAll m k vs) k = Some ((case map_of m k of Some l \<Rightarrow> l | None \<Rightarrow> []) @ vs)"
  by (simp add: pushAll_def update_conv' split: option.splits)

lemma orNewMap_Some [simp]: "orNewMap (Some m) = m"
  by (simp add: orNewMap_def)

lemma listAt_pushAll_twice:
  "listAt (Some (pushAll (pushAll (orNewMap m) k vs) k ws)) k = listAt m k @ vs @ ws"
  by (simp add: listAt_def mapGet_def pushAll_get orNewMap_def split: option.splits)

lemma path_twice:
  assumes "ctx_kind ctx = Class \<or> ctx_kind ctx = Method" and "ctx_metadata ctx = Some md"
  shows "\<exists>md1 md2. path p1 ctx = Inr md1 \<and> path p2 (after ctx md1) = Inr md2
           \<and> listAt (PATH md2) (classOrMethodKey ctx) = listAt (PATH md) (classOrMethodKey ctx) @ [p1, p2]"
  using assms by (auto simp: path_def after_def Let_def listAt_pushAll_twice classOrMethodKey_def)


lemma middleware_twice:
  assumes "ctx_kind ctx = Class \<or> ctx_kind ctx = Method" and "ctx_metadata ctx = Some md"
  shows "\<exists>md1 md2. middleware ms1 ctx = Inr md1 \<and> middleware ms2 (after ctx md1) = Inr md2
           \<and> listAt (MIDDLEWARE md2) (classOrMethodKey ctx)
               = listAt (MIDDLEWARE md) (classOrMethodKey ctx) @ ms1 @ ms2"
  using assms by (auto simp: middleware_def after_def Let_def listAt_pushAll_twice classOrMethodKey_def)

lemma tag_twice:
  assumes "ctx_kind ctx = Class \<or> ctx_kind ctx = Method" and "ctx_metadata ctx = Some md"
  shows "\<exists>md1 md2. tag ts1 ctx = Inr md1 \<and> tag ts2 (after ctx md1) = Inr md2
           \<and> listAt (TAG md2) (classOrMethodKey ctx)
               = listAt (TAG md) (classOrMethodKey ctx) @ ts1 @ ts2"
  using assms by (auto simp: tag_def after_def Let_def listAt_pushAll_twice classOrMethodKey_def)

lemma response_twice:
  assumes "ctx_kind ctx = Class \<or> ctx_kind ctx = Method" and "ctx_metadata ctx = Some md"
  shows "\<exists>md1 md2. response c1 n1 d1 h1 ctx = Inr md1
           \<and> response c2 n2 d2 h2 (after ctx md1) = Inr md2
           \<and> listAt (RESPONSE md2) (classOrMethodKey ctx)
               = listAt (RESPONSE md) (classOrMethodKey ctx)
                 @ [\<lparr>r_code = c1, r_content = n1, r_description = d1, r_headers = h1\<rparr>,
                    \<lparr>r_code = c2, r_content = n2, r_description = d2, r_headers = h2\<rparr>]"
  using assms by (auto simp: response_def after_def Let_def listAt_pushAll_twice classOrMethodKey_def)

text \<open>
  C7. On one declaration site: when a single-valued decorator (\<open>method\<close>, \<open>summary\<close>,
  \<open>description\<close>, \<open>operationId\<close>, \<open>requestBody\<close>) has been applied, applying it again throws
  the duplicate-annotation error; applying a multi-valued decorator (\<open>path\<close>, \<open>middleware\<close>,
  \<open>tag\<close>, \<open>response\<close>) twice succeeds both times and appends the values of the first and
  then of the second application to the list of the site.
\<close>

theorem C7_twice:
  assumes "ctx_metadata ctx = Some md"
  shows "(methodDecorator m1 ctx = Inr md1
            \<longrightarrow> methodDecorator m2 (after ctx md1) = Inl DuplicateAnnotation)
       \<and> (summary v1 ctx = Inr md1 \<longrightarrow> summary v2 (after ctx md1) = Inl DuplicateAnnotation)
       \<and> (description v1 ctx = Inr md1
            \<longrightarrow> description v2 (after ctx md1) = Inl DuplicateAnnotation)
       \<and> (operationId v1 ctx = Inr md1
            \<longrightarrow> operationId v2 (after ctx md1) = Inl DuplicateAnnotation)
       \<and> (requestBody b1 ctx = Inr md1
            \<longrightarrow> requestBody b2 (after ctx md1) = Inl DuplicateAnnotation)
       \<and> (ctx_kind ctx = Class \<or> ctx_kind ctx = Method \<longrightarrow>
            (\<exists>md' md''. path p1 ctx = Inr md' \<and> path p2 (after ctx md') = Inr md''
               \<and> listAt (PATH md'') (classOrMethodKey ctx)
                   = listAt (PATH md) (classOrMethodKey ctx) @ [p1, p2])
          \<and> (\<exists>md' md''. middleware ms1 ctx = Inr md' \<and> middleware ms2 (after ctx md') = Inr md''
               \<and> listAt (MIDDLEWARE md'') (classOrMethodKey ctx)
                   = listAt (MIDDLEWARE md) (classOrMethodKey ctx) @ ms1 @ ms2)
          \<and> (\<exists>md' md''. tag ts1 ctx = Inr md' \<and> tag ts2 (after ctx md') = Inr md''
               \<and> listAt (TAG md'') (classOrMethodKey ctx)
                   = listAt (TAG md) (classOrMethodKey ctx) @ ts1 @ ts2)
          \<and> (\<exists>md' md''. response c1 n1 d1 h1 ctx = Inr md'
               \<and> response c2 n2 d2 h2 (after ctx md') = Inr md''
               \<and> listAt (RESPONSE md'') (classOrMethodKey ctx)
                   = listAt (RESPONSE md) (classOrMethodKey ctx)
                     @ [\<lparr>r_code = c1, r_content = n1, r_description = d1, r_headers = h1\<rparr>,
                        \<lparr>r_code = c2, r_content = n2, r_description = d2, r_headers = h2\<rparr>]))"
proof -
  have multi: "ctx_kind ctx = Class \<or> ctx_kind ctx = Method \<Longrightarrow>
            (\<exists>md' md''. path p1 ctx = Inr md' \<and> path p2 (after ctx md') = Inr md''
               \<and> listAt (PATH md'') (classOrMethodKey ctx)
                   = listAt (PATH md) (classOrMethodKey ctx) @ [p1, p2])
          \<and> (\<exists>md' md''. middleware ms1 ctx = Inr md' \<and> middleware ms2 (after ctx md') = Inr md''
               \<and> listAt (MIDDLEWARE md'') (classOrMethodKey ctx)
                   = listAt (MIDDLEWARE md) (classOrMethodKey ctx) @ ms1 @ ms2)
          \<and> (\<exists>md' md''. tag ts1 ctx = Inr md' \<and> tag ts2 (after ctx md') = Inr md''
               \<and> listAt (TAG md'') (classOrMethodKey ctx)
                   = listAt (TAG md) (classOrMethodKey ctx) @ ts1 @ ts2)
          \<and> (\<exists>md' md''. response c1 n1 d1 h1 ctx = Inr md'
               \<and> response c2 n2 d2 h2 (after ctx md') = Inr md''
               \<and> listAt (RESPONSE md'') (classOrMethodKey ctx)
                   = listAt (RESPONSE md) (classOrMethodKey ctx)
                     @ [\<lparr>r_code = c1, r_content = n1, r_description = d1, r_headers = h1\<rparr>,
                        \<lparr>r_code = c2, r_content = n2, r_description = d2, r_headers = h2\<rparr>])"
    using path_twice [OF _ assms] middleware_twice [OF _ assms] tag_twice [OF _ assms]
      response_twice [OF _ assms] by blast
  show ?thesis
    using methodDecorator_twice summary_twice description_twice operationId_twice
      requestBody_twice multi by blast
qed


text \<open>The theorem on the method \<open>list\<close> of a class without annotations so far.\<close>

theorem C7_twice_witness:
  "ctx_metadata listContext = Some emptyMetadata
   \<and> methodDecorator GET listContext = Inr (emptyMetadata\<lparr>METHOD := Some [(Member (Str ''list''), GET)]\<rparr>)
   \<and> methodDecorator POST (after listContext (emptyMetadata\<lparr>METHOD := Some [(Member (Str ''list''), GET)]\<rparr>))
       = Inl DuplicateAnnotation
   \<and> summary ''a'' listContext = Inr (emptyMetadata\<lparr>SUMMARY := Some [(Member (Str ''list''), ''a'')]\<rparr>)
   \<and> summary ''b'' (after listContext (emptyMetadata\<lparr>SUMMARY := Some [(Member (Str ''list''), ''a'')]\<rparr>))
       = Inl DuplicateAnnotation
   \<and> description ''a'' listContext
       = Inr (emptyMetadata\<lparr>DESCRIPTION := Some [(Member (Str ''list''), ''a'')]\<rparr>)
   \<and> description ''b'' (after listContext (emptyMetadata\<lparr>DESCRIPTION := Some [(Member (Str ''list''), ''a'')]\<rparr>))
       = Inl DuplicateAnnotation
   \<and> operationId ''a'' listContext
       = Inr (emptyMetadata\<lparr>OPERATION_ID := Some [(Member (Str ''list''), ''a'')]\<rparr>)
   \<and> operationId ''b'' (after listContext (emptyMetadata\<lparr>OPERATION_ID := Some [(Member (Str ''list''), ''a'')]\<rparr>))
       = Inl DuplicateAnnotation
   \<and> requestBody (BodyName ''A'') listContext
       = Inr (emptyMetadata\<lparr>REQUEST_BODY := Some [(Member (Str ''list''), BodyName ''A'')]\<rparr>)
   \<and> requestBody (BodyName ''B'')
         (after listContext (emptyMetadata\<lparr>REQUEST_BODY := Some [(Member (Str ''list''), BodyName ''A'')]\<rparr>))
       = Inl DuplicateAnnotation
   \<and> (\<exists>md' md''. path ''/a'' listContext = Inr md' \<and> path ''/b'' (after listContext md') = Inr md''
         \<and> listAt (PATH md'') (Member (Str ''list'')) = [''/a'', ''/b''])
   \<and> (\<exists>md' md''. middleware [''auth''] listContext = Inr md'
         \<and> middleware [''log'', ''json''] (after listContext md') = Inr md''
         \<and> listAt (MIDDLEWARE md'') (Member (Str ''list'')) = [''auth'', ''log'', ''json''])
   \<and> (\<exists>md' md''. tag [''x''] listContext = Inr md' \<and> tag [''y''] (after listContext md') = Inr md''
         \<and> listAt (TAG md'') (Member (Str ''list'')) = [''x'', ''y''])
   \<and> (\<exists>md' md''. response 200 None None None listContext = Inr md'
         \<and> response 404 None None None (after listContext md') = Inr md''
         \<and> listAt (RESPONSE md'') (Member (Str ''list'')) = [bareTuple 200, bareTuple 404])"
proof -
  let ?md = "\<lambda>f. f emptyMetadata"
  have m: "ctx_metadata listContext = Some emptyMetadata" by (simp add: listContext_def)
  have k: "ctx_kind listContext = Class \<or> ctx_kind listContext = Method" by (simp add: listContext_def)
  have key: "classOrMethodKey listContext = Member (Str ''list'')"
    by (simp add: classOrMethodKey_def listContext_def)
  have old: "listAt (PATH emptyMetadata) x = []" "listAt (MIDDLEWARE emptyMetadata) x = []"
    "listAt (TAG emptyMetadata) x = []" "listAt (RESPONSE emptyMetadata) x = []" for x
    by (simp_all add: listAt_def mapGet_def emptyMetadata_def)
  have f1: "methodDecorator GET listContext = Inr (emptyMetadata\<lparr>METHOD := Some [(Member (Str ''list''), GET)]\<rparr>)"
    by code_simp
  have f2: "summary ''a'' listContext = Inr (emptyMetadata\<lparr>SUMMARY := Some [(Member (Str ''list''), ''a'')]\<rparr>)"
    by code_simp
  have f3: "description ''a'' listContext
       = Inr (emptyMetadata\<lparr>DESCRIPTION := Some [(Member (Str ''list''), ''a'')]\<rparr>)"
    by code_simp
  have f4: "operationId ''a'' listContext
       = Inr (emptyMetadata\<lparr>OPERATION_ID := Some [(Member (Str ''list''), ''a'')]\<rparr>)"
    by code_simp
  have f5: "requestBody (BodyName ''A'') listContext
       = Inr (emptyMetadata\<lparr>REQUEST_BODY := Some [(Member (Str ''list''), BodyName ''A'')]\<rparr>)"
    by code_simp
  note t = C7_twice [OF m, where ?p1.0 = "''/a''" and ?p2.0 = "''/b''"  and ?ms1.0 = "[''auth'']"
      and ?ms2.0 = "[''log'', ''json'']" and ?ts1.0 = "[''x'']" and ?ts2.0 = "[''y'']"
      and ?c1.0 = 200 and ?c2.0 = 404 and ?n1.0 = None and ?n2.0 = None and ?d1.0 = None
      and ?d2.0 = None and ?h1.0 = None and ?h2.0 = None]
  from t [where ?m1.0 = GET and ?m2.0 = POST and ?md1.0 = "emptyMetadata\<lparr>METHOD := Some [(Member (Str ''list''), GET)]\<rparr>"] f1
  have g1: "methodDecorator POST (after listContext (emptyMetadata\<lparr>METHOD := Some [(Member (Str ''list''), GET)]\<rparr>))
       = Inl DuplicateAnnotation" by blast
  from t [where ?v1.0 = "''a''" and ?v2.0 = "''b''" and ?md1.0 = "emptyMetadata\<lparr>SUMMARY := Some [(Member (Str ''list''), ''a'')]\<rparr>"] f2
  have g2: "summary ''b'' (after listContext (emptyMetadata\<lparr>SUMMARY := Some [(Member (Str ''list''), ''a'')]\<rparr>))
       = Inl DuplicateAnnotation" by blast
  from t [where ?v1.0 = "''a''" and ?v2.0 = "''b''" and ?md1.0 = "emptyMetadata\<lparr>DESCRIPTION := Some [(Member (Str ''list''), ''a'')]\<rparr>"] f3
  have g3: "description ''b'' (after listContext (emptyMetadata\<lparr>DESCRIPTION := Some [(Member (Str ''list''), ''a'')]\<rparr>))
       = Inl DuplicateAnnotation" by blast
  from t [where ?v1.0 = "''a''" and ?v2.0 = "''b''" and ?md1.0 = "emptyMetadata\<lparr>OPERATION_ID := Some [(Member (Str ''list''), ''a'')]\<rparr>"] f4
  have g4: "operationId ''b'' (after listContext (emptyMetadata\<lparr>OPERATION_ID := Some [(Member (Str ''list''), ''a'')]\<rparr>))
       = Inl DuplicateAnnotation" by blast
  from t [where ?b1.0 = "BodyName ''A''" and ?b2.0 = "BodyName ''B''" and ?md1.0 = "emptyMetadata\<lparr>REQUEST_BODY := Some [(Member (Str ''list''), BodyName ''A'')]\<rparr>"] f5
  have g5: "requestBody (BodyName ''B'')
         (after listContext (emptyMetadata\<lparr>REQUEST_BODY := Some [(Member (Str ''list''), BodyName ''A'')]\<rparr>))
       = Inl DuplicateAnnotation" by blast
  from t k have multi: "(\<exists>md' md''. path ''/a'' listContext = Inr md' \<and> path ''/b'' (after listContext md') = Inr md''
         \<and> listAt (PATH md'') (Member (Str ''list'')) = [''/a'', ''/b''])
   \<and> (\<exists>md' md''. middleware [''auth''] listContext = Inr md'
         \<and> middleware [''log'', ''json''] (after listContext md') = Inr md''
         \<and> listAt (MIDDLEWARE md'') (Member (Str ''list'')) = [''auth'', ''log'', ''json''])
   \<and> (\<exists>md' md''. tag [''x''] listContext = Inr md' \<and> tag [''y''] (after listContext md') = Inr md''
         \<and> listAt (TAG md'') (Member (Str ''list'')) = [''x'', ''y''])
   \<and> (\<exists>md' md''. response 200 None None None listContext = Inr md'
         \<and> response 404 None None None (after listContext md') = Inr md''
         \<and> listAt (RESPONSE md'') (Member (Str ''list'')) = [bareTuple 200, bareTuple 404])"
    by (simp add: key old bareTuple_def)
  from m f1 g1 f2 g2 f3 g3 f4 g4 f5 g5 multi show ?thesis by blast
qed

section \<open>Route resolution: the records produced\<close>

lemma push_Nil [simp]: "push [] st = st"
  by (cases st) (simp add: push_def option.map_ident)

lemma push_append: "push (a @ b) st = push b (push a st)"
  by (cases st) (simp add: push_def option.map_comp comp_def)

lemma forOf_push:
  assumes "\<And>x st. x \<in> set xs \<Longrightarrow> body x st = (push (g x) st, None)"
  shows "forOf body xs st = (push (concat (map g xs)) st, None)"
  using assms
proof (induction xs arbitrary: st)
  case Nil
  then show ?case by simp
next
  case (Cons x xs)
  then show ?case by (simp add: push_append)
qed

lemma concat_map_filter_empty:
  "(\<And>x. x \<in> set xs \<Longrightarrow> \<not> P x \<Longrightarrow> g x = []) \<Longrightarrow> concat (map g (filter P xs)) = concat (map g xs)"
  by (induction xs) auto

lemma routeBody_bound:
  "n \<in> set (c_functions c) \<Longrightarrow>
   routeBody c md (Member n) cp mp st = (push [route c md n cp mp] st, None)"
  by (simp add: routeBody_def bind_def route_def push_def Let_def)

lemma registerController_bound:
  assumes "handlersBound c"
  shows "registerController c st = (push (resolution c) st, None)"
proof (cases "c_metadata c")
  case None
  then show ?thesis by (simp add: registerController_def resolution_def)
next
  case (Some md)
  show ?thesis
  proof (cases "PATH md")
    case None
    with Some show ?thesis
      by (simp add: registerController_def resolution_def pathBearing_def orNewMap_def)
  next
    case (Some pathMap)
    let ?g = "\<lambda>(h, mps). case h of
                CLASS_METADATA \<Rightarrow> []
              | Member n \<Rightarrow>
                  concat (map (\<lambda>classPath. map (\<lambda>methodPath. route c md n classPath methodPath) mps)
                            (classPaths md))"
    let ?body = "\<lambda>(handlerName, methodPaths) st.
                     if handlerName = CLASS_METADATA then (st, None)
                     else
                       forOf (\<lambda>classPath.
                           forOf (\<lambda>methodPath. routeBody c md handlerName classPath methodPath)
                             methodPaths)
                         (classPaths md) st"
    have body: "?body x st = (push (?g x) st, None)" if "x \<in> set pathMap" for x st
    proof (cases x)
      case (Pair h mps)
      show ?thesis
      proof (cases h)
        case CLASS_METADATA
        with Pair show ?thesis by simp
      next
        case (Member n)
        with that Pair \<open>c_metadata c = Some md\<close> Some assms have n: "n \<in> set (c_functions c)"
          by (auto simp: handlersBound_def pathBearing_def list_all_iff orNewMap_def)
        have inner: "forOf (\<lambda>methodPath. routeBody c md (Member n) cp methodPath) mps s
                       = (push (map (\<lambda>methodPath. route c md n cp methodPath) mps) s, None)" for cp s
          using forOf_push [of mps "\<lambda>mp. routeBody c md (Member n) cp mp" "\<lambda>mp. [route c md n cp mp]" s]
          by (simp add: routeBody_bound [OF n] concat_map_singleton)
        have "forOf (\<lambda>classPath. forOf (\<lambda>methodPath. routeBody c md (Member n) classPath methodPath) mps)
                (classPaths md) st
              = (push (concat (map (\<lambda>classPath. map (\<lambda>methodPath. route c md n classPath methodPath) mps)
                            (classPaths md))) st, None)"
          by (rule forOf_push) (simp add: inner)
        with Pair Member show ?thesis by simp
      qed
    qed
    have "forOf ?body pathMap st = (push (concat (map ?g pathMap)) st, None)"
      by (rule forOf_push) (rule body)
    moreover have "concat (map ?g (filter (\<lambda>(h, mps). h \<noteq> CLASS_METADATA) pathMap))
                     = concat (map ?g pathMap)"
      by (rule concat_map_filter_empty) auto
    then have "concat (map ?g pathMap) = resolution c"
      using \<open>c_metadata c = Some md\<close> Some
      by (simp add: resolution_def pathBearing_def orNewMap_def)
    ultimately show ?thesis
      using \<open>c_metadata c = Some md\<close> Some
      by (auto simp: registerController_def resolution_def pathBearing_def orNewMap_def)
  qed
qed


lemma registerControllers_bound:
  assumes "\<forall>c\<in>set cs. handlersBound c"
  shows "registerControllers True reg cs
           = (map_option (\<lambda>calls. calls @ map snd (concat (map resolution cs))) reg,
              Inr (map fst (concat (map resolution cs))))"
proof -
  have "forOf registerController cs ([], reg) = (push (concat (map resolution cs)) ([], reg), None)"
    by (rule forOf_push) (use assms in \<open>simp add: registerController_bound\<close>)
  then show ?thesis by (simp add: registerControllers_def push_def)
qed

lemma route_path: "i_path (fst (route c md n cp mp)) = cp @ mp"
  by (simp add: route_def Let_def)

lemma pathBearing_Member: "(h, mps) \<in> set (pathBearing c) \<Longrightarrow> \<exists>n. h = Member n"
  by (cases h) (auto simp: pathBearing_def split: option.splits)

lemma resolution_paths:
  assumes "c_metadata c = Some md"
  shows "map (\<lambda>r. i_path (fst r)) (resolution c)
           = concat (map (\<lambda>(h, mps). concat (map (\<lambda>cp. map (\<lambda>mp. cp @ mp) mps) (classPaths md)))
                       (pathBearing c))"
proof -
  let ?g = "\<lambda>(h, mps). case h of
              CLASS_METADATA \<Rightarrow> []
            | Member n \<Rightarrow> concat (map (\<lambda>cp. map (\<lambda>mp. route c md n cp mp) mps) (classPaths md))"
  let ?G = "\<lambda>(h, mps). concat (map (\<lambda>cp. map (\<lambda>mp. cp @ mp) mps) (classPaths md))"
  have eq: "map (\<lambda>e. map (\<lambda>r. i_path (fst r)) (?g e)) (pathBearing c) = map ?G (pathBearing c)"
  proof (rule map_cong [OF refl])
    fix e assume e: "e \<in> set (pathBearing c)"
    obtain h mps where hm: "e = (h, mps)" by (cases e)
    with e pathBearing_Member obtain n where "h = Member n" by blast
    with hm show "map (\<lambda>r. i_path (fst r)) (?g e) = ?G e"
      by (simp add: map_concat comp_def route_path)
  qed
  have "map (\<lambda>r. i_path (fst r)) (resolution c)
          = concat (map (\<lambda>e. map (\<lambda>r. i_path (fst r)) (?g e)) (pathBearing c))"
    using assms by (simp add: resolution_def map_concat comp_def)
  also have "\<dots> = concat (map ?G (pathBearing c))"
    by (rule arg_cong [OF eq])
  finally show ?thesis .
qed

lemma length_product:
  "length (concat (map (\<lambda>cp. map (\<lambda>mp. cp @ mp) mps) cps)) = length cps * length mps"
  by (induction cps) simp_all

lemma length_concat_uniform:
  "(\<And>x. x \<in> set xs \<Longrightarrow> length (g x) = m) \<Longrightarrow> length (concat (map g xs)) = m * length xs"
  by (induction xs) simp_all

text \<open>
  C3, as amended. A controller with class-level path segments, whose path-bearing sites
  each name a function of the instance and carry \<open>k\<close> path segments each: route resolution
  returns normally; the number of its records is the number of class-level segments times
  \<open>k\<close> times the number of path-bearing sites; their paths are, site by site, class
  segment by class segment, the class segment directly followed by the method segment.
\<close>

theorem C3_route_count:
  assumes "c_metadata c = Some md"
    and "mapGet (PATH md) CLASS_METADATA = Some cps"
    and "handlersBound c"
    and "\<forall>(h, mps)\<in>set (pathBearing c). length mps = k"
  shows "\<exists>info reg'. registerControllers True reg [c] = (reg', Inr info)
           \<and> length info = length cps * k * length (pathBearing c)
           \<and> map i_path info
               = concat (map (\<lambda>(h, mps). concat (map (\<lambda>cp. map (\<lambda>mp. cp @ mp) mps) cps))
                           (pathBearing c))"
proof -
  let ?info = "map fst (resolution c)"
  let ?paths = "concat (map (\<lambda>(h, mps). concat (map (\<lambda>cp. map (\<lambda>mp. cp @ mp) mps) cps))
                           (pathBearing c))"
  from assms(2) have cps: "classPaths md = cps" by (simp add: classPaths_def)
  have reg: "registerControllers True reg [c]
           = (map_option (\<lambda>calls. calls @ map snd (resolution c)) reg, Inr ?info)"
    using registerControllers_bound [of "[c]" reg] assms(3) by simp
  have paths: "map i_path ?info = ?paths"
    using resolution_paths [OF assms(1)] cps by (simp add: comp_def)
  have "length ?paths = (length cps * k) * length (pathBearing c)"
    by (rule length_concat_uniform) (use assms(4) in \<open>auto simp: length_product\<close>)
  with paths have "length ?info = length cps * k * length (pathBearing c)"
    by (metis length_map)
  with reg paths show ?thesis by blast
qed


text \<open>The theorem on two class segments and two methods of two segments each.\<close>

theorem C3_route_count_witness:
  "c_metadata userController = Some userMetadata
   \<and> mapGet (PATH userMetadata) CLASS_METADATA = Some [''/v2'', ''/v1'']
   \<and> handlersBound userController
   \<and> length (pathBearing userController) = 2
   \<and> (\<exists>info reg'. registerControllers True (Some []) [userController] = (reg', Inr info)
         \<and> length info = 2 * 2 * 2
         \<and> map i_path info
             = [''/v2/auth'', ''/v2/login'', ''/v1/auth'', ''/v1/login'',
                ''/v2/me'', ''/v2/profile'', ''/v1/me'', ''/v1/profile''])"
proof -
  have pb: "pathBearing userController
              = [(Member (Str ''loginFn''), [''/auth'', ''/login'']),
                 (Member (Str ''profile''), [''/me'', ''/profile''])]"
    by code_simp
  have h1: "c_metadata userController = Some userMetadata" by (simp add: userController_def)
  have h2: "mapGet (PATH userMetadata) CLASS_METADATA = Some [''/v2'', ''/v1'']" by code_simp
  have h3: "handlersBound userController" by code_simp
  have h4: "\<forall>(h, mps)\<in>set (pathBearing userController). length mps = 2" by (simp add: pb)
  from C3_route_count [OF h1 h2 h3 h4, of "Some []"] h1 h2 h3 show ?thesis
    by (simp add: pb)
qed

text \<open>
  C3 as stated fails on the class \<open>staticMetadata\<close>: it has one class-level segment and two
  path-bearing sites of one segment each, so the claim gives two records. The site \<open>ping\<close>
  names no function of the instance: \<open>controller[handlerName]\<close> is \<open>undefined\<close>, binding it
  throws, and route resolution returns no list; the route of \<open>list\<close> has been registered
  by then.
\<close>

theorem C3_unbound_handler_counterexample:
  "c_metadata staticController = Some staticMetadata
   \<and> mapGet (PATH staticMetadata) CLASS_METADATA = Some [''/v1'']
   \<and> pathBearing staticController
       = [(Member (Str ''list''), [''/list'']), (Member (Str ''ping''), [''/ping''])]
   \<and> registerControllers True (Some []) [staticController]
       = (Some [(''get'', ''/v1/list'', [], Bound 0 (Str ''list''))],
          Inl (TypeError ''bind: the handler is undefined''))"
  by code_simp

section \<open>Document synthesis: duplicates and the base document\<close>

lemma forOf_append:
  "forOf body (xs @ ys) s =
     (case forOf body xs s of (s', None) \<Rightarrow> forOf body ys s' | (s', Some e) \<Rightarrow> (s', Some e))"
  by (induction xs arbitrary: s) (auto split: prod.splits option.splits)

lemma forOf_concat_map:
  "forOf (\<lambda>x. forOf body (g x)) xs s = forOf body (concat (map g xs)) s"
  by (induction xs arbitrary: s) (auto simp: forOf_append split: prod.splits option.splits)

lemma forOf_map: "forOf body (map f xs) s = forOf (\<lambda>x. body (f x)) xs s"
  by (induction xs arbitrary: s) (auto split: prod.splits option.splits)

lemma forOf_cong:
  "(\<And>x s. x \<in> set xs \<Longrightarrow> body x s = body' x s) \<Longrightarrow> forOf body xs s = forOf body' xs s"
  by (induction xs arbitrary: s) (auto split: prod.splits option.splits)

lemma forOf_filter:
  "(\<And>x s. x \<in> set xs \<Longrightarrow> \<not> P x \<Longrightarrow> body x s = (s, None))
     \<Longrightarrow> forOf body (filter P xs) s = forOf body xs s"
  by (induction xs arbitrary: s) (auto split: prod.splits option.splits)

lemma synthesizeController_flat:
  "synthesizeController c oaPaths = forOf step (operationsOf c) oaPaths"
proof (cases "c_metadata c")
  case None
  then show ?thesis by (simp add: synthesizeController_def operationsOf_def)
next
  case (Some md)
  show ?thesis
  proof (cases "PATH md")
    case None
    with Some show ?thesis
      by (simp add: synthesizeController_def operationsOf_def pathBearing_def orNewMap_def)
  next
    case (Some pathMap)
    let ?body = "\<lambda>(handlerName, methodPaths) st.
                     if handlerName = CLASS_METADATA then (st, None)
                     else
                       forOf (\<lambda>classPath.
                           forOf (\<lambda>methodPath. operationBody md handlerName classPath methodPath)
                             methodPaths)
                         (classPaths md) st"
    let ?g = "\<lambda>(h, mps).
              concat (map (\<lambda>classPath. map (\<lambda>methodPath. (md, h, classPath, methodPath)) mps)
                        (classPaths md))"
    have entry: "?body x s = forOf step (?g x) s" if "fst x \<noteq> CLASS_METADATA" for x s
    proof -
      obtain h mps where x: "x = (h, mps)" by (cases x)
      have inner: "forOf (\<lambda>methodPath. operationBody md h cp methodPath) mps s'
              = forOf step (map (\<lambda>methodPath. (md, h, cp, methodPath)) mps) s'" for cp s'
        by (simp add: forOf_map step_def)
      have "forOf (\<lambda>classPath. forOf (\<lambda>methodPath. operationBody md h classPath methodPath) mps)
                   (classPaths md) s
              = forOf (\<lambda>classPath. forOf step (map (\<lambda>methodPath. (md, h, classPath, methodPath)) mps))
                   (classPaths md) s"
        by (rule forOf_cong) (rule inner)
      also have "\<dots> = forOf step (concat (map (\<lambda>classPath. map (\<lambda>methodPath. (md, h, classPath, methodPath)) mps)
                        (classPaths md))) s"
        by (rule forOf_concat_map)
      finally have "forOf (\<lambda>classPath. forOf (\<lambda>methodPath. operationBody md h classPath methodPath) mps)
                   (classPaths md) s
                 = forOf step (concat (map (\<lambda>classPath. map (\<lambda>methodPath. (md, h, classPath, methodPath)) mps)
                        (classPaths md))) s" .
      with x that show ?thesis by simp
    qed
    have "forOf ?body pathMap oaPaths
            = forOf ?body (filter (\<lambda>(h, mps). h \<noteq> CLASS_METADATA) pathMap) oaPaths"
      by (rule forOf_filter [symmetric]) auto
    also have "\<dots> = forOf (\<lambda>x. forOf step (?g x)) (filter (\<lambda>(h, mps). h \<noteq> CLASS_METADATA) pathMap) oaPaths"
    proof (rule forOf_cong)
      fix x s assume "x \<in> set (filter (\<lambda>(h, mps). h \<noteq> CLASS_METADATA) pathMap)"
      then have "fst x \<noteq> CLASS_METADATA" by auto
      then show "?body x s = forOf step (?g x) s" by (rule entry)
    qed
    also have "\<dots> = forOf step (concat (map ?g (filter (\<lambda>(h, mps). h \<noteq> CLASS_METADATA) pathMap))) oaPaths"
      by (rule forOf_concat_map)
    finally have "forOf ?body pathMap oaPaths = forOf step (operationsOf c) oaPaths"
      using \<open>c_metadata c = Some md\<close> Some
      by (simp add: operationsOf_def pathBearing_def orNewMap_def)
    then show ?thesis
      using \<open>c_metadata c = Some md\<close> Some
      by (auto simp: synthesizeController_def operationsOf_def pathBearing_def orNewMap_def)
  qed
qed

lemma synthesis_flat:
  "forOf synthesizeController controllers oaPaths = forOf step (operations controllers) oaPaths"
proof -
  have "forOf synthesizeController controllers oaPaths
          = forOf (\<lambda>c. forOf step (operationsOf c)) controllers oaPaths"
    by (rule forOf_cong) (simp add: synthesizeController_flat)
  then show ?thesis by (simp add: forOf_concat_map operations_def)
qed


lemma step_present:
  assumes "present oaPaths (resolvesTo site)"
  shows "step site oaPaths
           = (oaPaths, Some (DuplicatePathMethod (snd (resolvesTo site)) (fst (resolvesTo site))))"
proof -
  obtain md h cp mp where site: "site = (md, h, cp, mp)" by (cases site)
  from assms site obtain item where "map_of oaPaths (oaPath (cp @ mp)) = Some item"
    and "mapHas (pi_operations item) (toLowerCase (effectiveMethod md h))"
    by (auto simp: present_def resolvesTo_def sitePath_def siteMethod_def split: option.splits)
  with site show ?thesis
    by (simp add: step_def operationBody_def resolvesTo_def sitePath_def siteMethod_def Let_def)
qed

lemma step_error:
  assumes "step site oaPaths = (oaPaths', Some e)"
  shows "(\<exists>m p. e = DuplicatePathMethod m p) \<or> \<not> buildable site"
proof -
  obtain md h cp mp where site: "site = (md, h, cp, mp)" by (cases site)
  with assms show ?thesis
    by (auto simp: step_def operationBody_def buildable_def Let_def split: if_splits sum.splits)
qed

lemma step_ok:
  assumes "step site oaPaths = (oaPaths', None)"
  shows "present oaPaths' (resolvesTo site) \<and> (\<forall>k. present oaPaths k \<longrightarrow> present oaPaths' k)"
proof -
  obtain md h cp mp where site: "site = (md, h, cp, mp)" by (cases site)
  let ?p = "oaPath (cp @ mp)" and ?m = "toLowerCase (effectiveMethod md h)"
  let ?item = "case map_of oaPaths ?p of
               Some item \<Rightarrow> item
             | None \<Rightarrow>
                 \<lparr>pi_parameters = (if parameters (cp @ mp) = [] then None else Some (parameters (cp @ mp))),
                  pi_operations = []\<rparr>"
  from assms site obtain operation where
    new: "oaPaths' = AList.update ?p (?item\<lparr>pi_operations := AList.update ?m operation (pi_operations ?item)\<rparr>) oaPaths"
    by (auto simp: step_def operationBody_def Let_def split: if_splits sum.splits)
  have here: "present oaPaths' (resolvesTo site)"
    by (simp add: new present_def resolvesTo_def sitePath_def siteMethod_def site update_conv' mapHas_def)
  have mono: "present oaPaths' k" if "present oaPaths k" for k
  proof -
    obtain q n where k: "k = (q, n)" by (cases k)
    show ?thesis
    proof (cases "q = ?p")
      case True
      with that k show ?thesis
        by (auto simp: new present_def update_conv' mapHas_def split: option.splits)
    next
      case False
      with that k show ?thesis
        by (simp add: new present_def update_conv')
    qed
  qed
  from here mono show ?thesis by blast
qed



lemma forOf_step_duplicate:
  assumes "j < length sites"
    and "present oaPaths (resolvesTo (sites ! j))
           \<or> (\<exists>i<j. resolvesTo (sites ! i) = resolvesTo (sites ! j))"
    and "\<forall>n<j. buildable (sites ! n)"
  shows "\<exists>s m p. forOf step sites oaPaths = (s, Some (DuplicatePathMethod m p))"
  using assms
proof (induction sites arbitrary: j oaPaths)
  case Nil
  then show ?case by simp
next
  case (Cons site sites)
  show ?case
  proof (cases j)
    case 0
    with Cons.prems(2) have "present oaPaths (resolvesTo site)" by simp
    from step_present [OF this] show ?thesis by simp
  next
    case (Suc j')
    with Cons.prems(3) have b: "buildable site" by auto
    show ?thesis
    proof (cases "step site oaPaths")
      case (Pair mid r)
      show ?thesis
      proof (cases r)
        case (Some e)
        with Pair step_error b obtain m p where "e = DuplicatePathMethod m p" by blast
        with Pair Some show ?thesis by simp
      next
        case None
        with Pair have ok: "step site oaPaths = (mid, None)" by simp
        note mono = step_ok [OF ok]
        have j': "j' < length sites" using Cons.prems(1) Suc by simp
        have pre: "present mid (resolvesTo (sites ! j'))
                     \<or> (\<exists>i<j'. resolvesTo (sites ! i) = resolvesTo (sites ! j'))"
        proof -
          from Cons.prems(2) Suc
          consider "present oaPaths (resolvesTo (sites ! j'))"
            | i where "i < Suc j'" "resolvesTo ((site # sites) ! i) = resolvesTo (sites ! j')"
            by auto
          then show ?thesis
          proof cases
            case 1
            with mono show ?thesis by blast
          next
            case 2
            show ?thesis
            proof (cases i)
              case 0
              with 2 mono show ?thesis by simp
            next
              case (Suc i')
              with 2 show ?thesis by auto
            qed
          qed
        qed
        have bs: "\<forall>n<j'. buildable (sites ! n)"
          using Cons.prems(3) Suc by auto
        from Cons.IH [OF j' pre bs] ok show ?thesis by simp
      qed
    qed
  qed
qed

lemma getOpenAPISchema_throws:
  assumes "forOf step (operations controllers) (case paths base of Some ps \<Rightarrow> ps | None \<Rightarrow> [])
             = (s, Some e)"
  shows "getOpenAPISchema True generate base controllers pattern = Inl e"
  using assms by (simp add: getOpenAPISchema_def structuredClone_def synthesis_flat Let_def)



lemma route_registration: "snd (route c md n cp mp) = registrationOf (fst (route c md n cp mp))"
  by (simp add: route_def registrationOf_def Let_def)

lemma resolution_registrations: "map snd (resolution c) = map registrationOf (map fst (resolution c))"
proof -
  have "snd r = registrationOf (fst r)" if "r \<in> set (resolution c)" for r
    using that
    by (auto simp: resolution_def route_registration split: option.splits key.splits)
  then show ?thesis by simp
qed

lemma resolution_sites:
  "map (\<lambda>r. (i_path (fst r), i_method (fst r))) (resolution c)
     = map (\<lambda>s. (sitePath s, siteMethod s)) (operationsOf c)"
proof (cases "c_metadata c")
  case None
  then show ?thesis by (simp add: resolution_def operationsOf_def)
next
  case (Some md)
  let ?g = "\<lambda>(h, mps). case h of
              CLASS_METADATA \<Rightarrow> []
            | Member n \<Rightarrow> concat (map (\<lambda>cp. map (\<lambda>mp. route c md n cp mp) mps) (classPaths md))"
  let ?G = "\<lambda>(h, mps). concat (map (\<lambda>cp. map (\<lambda>mp. (md, h, cp, mp)) mps) (classPaths md))"
  let ?f = "\<lambda>r. (i_path (fst r), i_method (fst r))"
  let ?F = "\<lambda>s. (sitePath s, siteMethod s)"
  have eq: "map (\<lambda>e. map ?f (?g e)) (pathBearing c) = map (\<lambda>e. map ?F (?G e)) (pathBearing c)"
  proof (rule map_cong [OF refl])
    fix e assume e: "e \<in> set (pathBearing c)"
    obtain h mps where hm: "e = (h, mps)" by (cases e)
    with e pathBearing_Member obtain n where "h = Member n" by blast
    with hm show "map ?f (?g e) = map ?F (?G e)"
      by (simp add: map_concat comp_def route_def sitePath_def siteMethod_def Let_def)
  qed
  have "map ?f (resolution c) = concat (map (\<lambda>e. map ?f (?g e)) (pathBearing c))"
    using Some by (simp add: resolution_def map_concat comp_def)
  also have "\<dots> = concat (map (\<lambda>e. map ?F (?G e)) (pathBearing c))"
    by (rule arg_cong [OF eq])
  also have "\<dots> = map ?F (operationsOf c)"
    using Some by (simp add: operationsOf_def map_concat comp_def)
  finally show ?thesis .
qed

lemma resolutions_sites:
  "map (\<lambda>r. (i_path (fst r), i_method (fst r))) (concat (map resolution controllers))
     = map (\<lambda>s. (sitePath s, siteMethod s)) (operations controllers)"
  by (induction controllers) (simp_all add: operations_def resolution_sites)


text \<open>
  Whatever the response annotations are, synthesis does not return a document when two
  operations collide or one collides with the base document: it throws at the second of
  them at the latest.
\<close>

lemma forOf_step_collision_throws:
  assumes "j < length sites"
    and "present oaPaths (resolvesTo (sites ! j))
           \<or> (\<exists>i<j. resolvesTo (sites ! i) = resolvesTo (sites ! j))"
  shows "\<exists>s e. forOf step sites oaPaths = (s, Some e)"
  using assms
proof (induction sites arbitrary: j oaPaths)
  case Nil
  then show ?case by simp
next
  case (Cons site sites)
  show ?case
  proof (cases j)
    case 0
    with Cons.prems(2) have "present oaPaths (resolvesTo site)" by simp
    from step_present [OF this] show ?thesis by simp
  next
    case (Suc j')
    show ?thesis
    proof (cases "step site oaPaths")
      case (Pair mid r)
      show ?thesis
      proof (cases r)
        case (Some e)
        with Pair show ?thesis by simp
      next
        case None
        with Pair have ok: "step site oaPaths = (mid, None)" by simp
        note mono = step_ok [OF ok]
        have j': "j' < length sites" using Cons.prems(1) Suc by simp
        have pre: "present mid (resolvesTo (sites ! j'))
                     \<or> (\<exists>i<j'. resolvesTo (sites ! i) = resolvesTo (sites ! j'))"
        proof -
          from Cons.prems(2) Suc
          consider "present oaPaths (resolvesTo (sites ! j'))"
            | i where "i < Suc j'" "resolvesTo ((site # sites) ! i) = resolvesTo (sites ! j')"
            by auto
          then show ?thesis
          proof cases
            case 1
            with mono show ?thesis by blast
          next
            case 2
            show ?thesis
            proof (cases i)
              case 0
              with 2 mono show ?thesis by simp
            next
              case (Suc i')
              with 2 show ?thesis by auto
            qed
          qed
        qed
        from Cons.IH [OF j' pre] ok show ?thesis by simp
      qed
    qed
  qed
qed

lemma collision_never_returns:
  assumes "j < length (operations controllers)"
    and "present (case paths base of Some ps \<Rightarrow> ps | None \<Rightarrow> []) (resolvesTo (operations controllers ! j))
           \<or> (\<exists>i<j. resolvesTo (operations controllers ! i) = resolvesTo (operations controllers ! j))"
  shows "\<exists>e. getOpenAPISchema True generate base controllers pattern = Inl e"
proof -
  from forOf_step_collision_throws [OF assms] obtain s e
    where "forOf step (operations controllers) (case paths base of Some ps \<Rightarrow> ps | None \<Rightarrow> [])
             = (s, Some e)" by blast
  from getOpenAPISchema_throws [OF this] show ?thesis by blast
qed

text \<open>
  C4, as amended. Two operations, at the positions \<open>i < j\<close> of the processing order, that
  resolve to the same translated path and lower-cased method. Document synthesis then
  returns no document: it throws at the second of them at the latest. What it throws is the
  duplicate-path error when the operations processed before the second one can be built,
  that is, when none of their response tuples makes the response loop throw first. Route
  resolution over the same controllers returns normally when every path-bearing site
  names a function of its instance: it appends a record for every operation, the two
  colliding ones included, and registers each record in order.
\<close>

theorem C4_duplicate_asymmetry:
  assumes "i < j" and "j < length (operations controllers)"
    and "resolvesTo (operations controllers ! i) = resolvesTo (operations controllers ! j)"
  shows "(\<exists>e. getOpenAPISchema True generate base controllers pattern = Inl e)
       \<and> ((\<forall>n<j. buildable (operations controllers ! n))
            \<longrightarrow> (\<exists>m p. getOpenAPISchema True generate base controllers pattern
                         = Inl (DuplicatePathMethod m p)))
       \<and> ((\<forall>c\<in>set controllers. handlersBound c)
            \<longrightarrow> (\<exists>info. registerControllers True (Some calls) controllers
                           = (Some (calls @ map registrationOf info), Inr info)
                   \<and> length info = length (operations controllers)
                   \<and> i_path (info ! i) = sitePath (operations controllers ! i)
                   \<and> i_method (info ! i) = siteMethod (operations controllers ! i)
                   \<and> i_path (info ! j) = sitePath (operations controllers ! j)
                   \<and> i_method (info ! j) = siteMethod (operations controllers ! j)))"
proof (intro conjI impI)
  let ?ops = "operations controllers"
  from assms(1,3) have "\<exists>i<j. resolvesTo (?ops ! i) = resolvesTo (?ops ! j)" by blast
  then have pre: "present (case paths base of Some ps \<Rightarrow> ps | None \<Rightarrow> []) (resolvesTo (?ops ! j))
           \<or> (\<exists>i<j. resolvesTo (?ops ! i) = resolvesTo (?ops ! j))" by (rule disjI2)
  from forOf_step_collision_throws [OF assms(2) pre]
  obtain s e where "forOf step ?ops (case paths base of Some ps \<Rightarrow> ps | None \<Rightarrow> [])
                        = (s, Some e)" by blast
  from getOpenAPISchema_throws [OF this]
  show "\<exists>e. getOpenAPISchema True generate base controllers pattern = Inl e" by blast
  assume built: "\<forall>n<j. buildable (?ops ! n)"
  from forOf_step_duplicate [OF assms(2) pre built]
  obtain s m p where "forOf step ?ops (case paths base of Some ps \<Rightarrow> ps | None \<Rightarrow> [])
                        = (s, Some (DuplicatePathMethod m p))" by blast
  from getOpenAPISchema_throws [OF this]
  show "\<exists>m p. getOpenAPISchema True generate base controllers pattern
                  = Inl (DuplicatePathMethod m p)" by blast
next
  let ?ops = "operations controllers"
  let ?rs = "concat (map resolution controllers)"
  let ?info = "map fst ?rs"
  assume bound: "\<forall>c\<in>set controllers. handlersBound c"
  have "map snd ?rs = map registrationOf ?info"
    by (induction controllers) (simp_all add: resolution_registrations)
  with registerControllers_bound [OF bound, of "Some calls"]
  have reg: "registerControllers True (Some calls) controllers
               = (Some (calls @ map registrationOf ?info), Inr ?info)" by simp
  have sites: "map (\<lambda>r. (i_path r, i_method r)) ?info = map (\<lambda>s. (sitePath s, siteMethod s)) ?ops"
    using resolutions_sites [of controllers] by (simp add: comp_def)
  have len: "length ?info = length ?ops"
    using arg_cong [OF sites, of length] by simp
  have at: "i_path (?info ! n) = sitePath (?ops ! n) \<and> i_method (?info ! n) = siteMethod (?ops ! n)"
    if "n < length ?ops" for n
  proof -
    from that len have "map (\<lambda>r. (i_path r, i_method r)) ?info ! n = (i_path (?info ! n), i_method (?info ! n))"
      by simp
    moreover from that have "map (\<lambda>s. (sitePath s, siteMethod s)) ?ops ! n = (sitePath (?ops ! n), siteMethod (?ops ! n))"
      by simp
    ultimately show ?thesis using sites by simp
  qed
  from assms(1,2) have "i < length ?ops" by simp
  from at [OF this] have ai: "i_path (?info ! i) = sitePath (?ops ! i)"
    "i_method (?info ! i) = siteMethod (?ops ! i)" by simp_all
  from at [OF assms(2)] have aj: "i_path (?info ! j) = sitePath (?ops ! j)"
    "i_method (?info ! j) = siteMethod (?ops ! j)" by simp_all
  show "\<exists>info. registerControllers True (Some calls) controllers
                     = (Some (calls @ map registrationOf info), Inr info)
             \<and> length info = length (operations controllers)
             \<and> i_path (info ! i) = sitePath (operations controllers ! i)
             \<and> i_method (info ! i) = siteMethod (operations controllers ! i)
             \<and> i_path (info ! j) = sitePath (operations controllers ! j)
             \<and> i_method (info ! j) = siteMethod (operations controllers ! j)"
    using reg len ai aj by (intro exI [of _ ?info] conjI)
qed




text \<open>
  The theorem on two controllers whose paths \<open>/w/:id\<close> and \<open>/w/:id([0-9]+)\<close> both translate
  to \<open>/w/{id}\<close>.
\<close>

theorem C4_duplicate_asymmetry_witness:
  "(0::nat) < 1 \<and> 1 < length (operations [itemA, itemB])
   \<and> resolvesTo (operations [itemA, itemB] ! 0) = (''/w/{id}'', ''get'')
   \<and> resolvesTo (operations [itemA, itemB] ! 1) = (''/w/{id}'', ''get'')
   \<and> buildable (operations [itemA, itemB] ! 0)
   \<and> handlersBound itemA \<and> handlersBound itemB
   \<and> (\<exists>m p. getOpenAPISchema True noSchemas emptyDocument [itemA, itemB] None
                = Inl (DuplicatePathMethod m p))
   \<and> (\<exists>info. registerControllers True (Some []) [itemA, itemB]
                  = (Some ([] @ map registrationOf info), Inr info)
          \<and> length info = length (operations [itemA, itemB])
          \<and> i_path (info ! 0) = ''/w/:id'' \<and> i_method (info ! 0) = GET
          \<and> i_path (info ! 1) = ''/w/:id([0-9]+)'' \<and> i_method (info ! 1) = GET)"
proof -
  let ?ops = "operations [itemA, itemB]"
  have h1: "(0::nat) < 1" by simp
  have h2: "1 < length ?ops" by code_simp
  have r0: "resolvesTo (?ops ! 0) = (''/w/{id}'', ''get'')" by code_simp
  have r1: "resolvesTo (?ops ! 1) = (''/w/{id}'', ''get'')" by code_simp
  from r0 r1 have h3: "resolvesTo (?ops ! 0) = resolvesTo (?ops ! 1)" by simp
  have b0: "buildable (?ops ! 0)" by code_simp
  then have h4: "\<forall>n<1. buildable (?ops ! n)" by simp
  have ba: "handlersBound itemA" and bb: "handlersBound itemB" by code_simp+
  then have h5: "\<forall>c\<in>set [itemA, itemB]. handlersBound c" by simp
  have s: "sitePath (?ops ! 0) = ''/w/:id''" "siteMethod (?ops ! 0) = GET"
    "sitePath (?ops ! 1) = ''/w/:id([0-9]+)''" "siteMethod (?ops ! 1) = GET"
    by code_simp+
  note t = C4_duplicate_asymmetry [OF h1 h2 h3, of noSchemas emptyDocument None "[]"]
  from t h4 have dup: "\<exists>m p. getOpenAPISchema True noSchemas emptyDocument [itemA, itemB] None
                = Inl (DuplicatePathMethod m p)" by blast
  from t h5 have reg: "\<exists>info. registerControllers True (Some []) [itemA, itemB]
                  = (Some ([] @ map registrationOf info), Inr info)
          \<and> length info = length ?ops
          \<and> i_path (info ! 0) = sitePath (?ops ! 0) \<and> i_method (info ! 0) = siteMethod (?ops ! 0)
          \<and> i_path (info ! 1) = sitePath (?ops ! 1) \<and> i_method (info ! 1) = siteMethod (?ops ! 1)"
    by blast
  from h1 h2 r0 r1 b0 ba bb dup reg show ?thesis by (simp only: s)
qed

text \<open>
  C4 as stated fails on both sides. The operations of \<open>a201\<close> and \<open>itemB\<close> resolve to the
  same path and method, yet synthesis does not fail with the duplicate-path error: the
  response loop of the first operation throws a \<open>TypeError\<close> before the second operation is
  looked at. The operations of \<open>itemA\<close> and \<open>itemStatic\<close> resolve to the same path and
  method too, and route resolution over them does raise an error: it registers the first
  route and throws when it binds the handler of the second.
\<close>

theorem C4_other_error_counterexample:
  "resolvesTo (operations [a201, itemB] ! 0) = (''/w/{id}'', ''get'')
   \<and> resolvesTo (operations [a201, itemB] ! 1) = (''/w/{id}'', ''get'')
   \<and> getOpenAPISchema True noSchemas emptyDocument [a201, itemB] None
       = Inl (TypeError ''in operator: right operand is undefined'')
   \<and> resolvesTo (operations [itemA, itemStatic] ! 0) = (''/w/{id}'', ''get'')
   \<and> resolvesTo (operations [itemA, itemStatic] ! 1) = (''/w/{id}'', ''get'')
   \<and> registerControllers True (Some []) [itemA, itemStatic]
       = (Some [(''get'', ''/w/:id'', [], Bound 0 (Str ''get''))],
          Inl (TypeError ''bind: the handler is undefined''))"
  by code_simp





section \<open>Schema aggregation\<close>

text \<open>
  A node in a slot is rewritten; a cross-reference in a slot is replaced by the entry of
  the table.
\<close>

lemma nested_constant_rewritten:
  "generateSchemaDefinitions 64 [(''Event.d.ts'', Schema 0)] [] eventSchema
     = Inr ([(''Event'', VRef 0)],
            [Obj [(''type'', VStr ''object''), (''properties'', VRef 2)], Obj [],
             Obj [(''kind'', VRef 3)],
             Obj [(''type'', VStr ''string''), (''enum'', VRef 4)],
             Arr [VStr ''created''] []])"
  by code_simp

text \<open>
  C8. The claim: every node of a derived schema that has a constant, the root included,
  is rewritten to an enumeration, and every internal cross-reference is replaced by its
  definition. \<open>fixSchema\<close> rewrites the objects it finds in the slots of the object it is
  called on, and it is first called on the root: the root itself is never tested. For
  \<open>export type Status = 'active'\<close> the schema returned still has \<open>const\<close> and has no
  \<open>enum\<close>.
\<close>

theorem C8_root_constant_kept:
  "generateSchemaDefinitions 64 [(''Status.d.ts'', Schema 0)] [] statusSchema
     = Inr ([(''Status'', VRef 0)],
            [Obj [(''type'', VStr ''string''), (''const'', VStr ''active'')], Obj []])"
  by code_simp

text \<open>
  A cross-reference to a definition that is itself a cross-reference: the property \<open>x\<close>
  ends as the object \<open>{ $ref: '#/definitions/B' }\<close>, although the table of definitions is
  deleted from the result.
\<close>

lemma alias_reference_kept:
  "generateSchemaDefinitions 64 [(''Holder.d.ts'', Schema 0)] [] aliasSchema
     = Inr ([(''Holder'', VRef 0)],
            [Obj [(''type'', VStr ''object''), (''properties'', VRef 2)],
             Obj [(''A'', VRef 4), (''B'', VRef 4)], Obj [(''x'', VRef 3)],
             Obj [(''$ref'', VStr ''#/definitions/B'')],
             Obj [(''type'', VStr ''string''), (''enum'', VRef 6)],
             Obj [(''$ref'', VStr ''#/definitions/A'')], Arr [VStr ''b''] []])"
  by code_simp

section \<open>The returned document and the objects of the caller\<close>



lemma synthesizeController_forEachSite:
  "synthesizeController c oaPaths = forEachSite operationBody c oaPaths"
  by (simp add: synthesizeController_def forEachSite_def)

subsection \<open>Writes and the entries of an object\<close>

lemma length_setProp [simp]: "length (setProp a k v st) = length st"
  by (simp add: setProp_def split: jsobject.splits option.splits)









subsection \<open>The invariant\<close>













lemma entryOk_plain: "\<forall>b. v \<noteq> VRef b \<Longrightarrow> entryOk n m D len a (key, v)"
  by (cases v) (auto simp: entryOk_def)

lemma entryOk_new: "n \<le> b \<Longrightarrow> b < len \<Longrightarrow> entryOk n m D len a (key, VRef b)"
  by (simp add: entryOk_def)










lemma length_assignProp [simp]: "length (fst (assignProp a k v st)) = length st"
  by (simp add: assignProp_def)












lemma length_setText [simp]: "length (setText a k str st) = length st"
  by (simp add: setText_def split: option.splits)

lemma length_setTags [simp]: "length (setTags md h a st) = length st"
  by (simp add: setTags_def Let_def)

lemma length_setOperationId [simp]: "length (setOperationId md h a st) = length st"
  by (simp add: setOperationId_def split: option.splits key.splits name.splits)

lemma length_setRequestBody [simp]: "length (setRequestBody md h a st) = length st"
  by (simp add: setRequestBody_def Let_def split: option.splits RequestBodyMetadata.splits)


subsection \<open>The loop body keeps \<open>openapi.paths\<close> and the invariant\<close>





lemma length_ensurePathItem: "length s \<le> length (fst (ensurePathItem oaPaths p s))"
  by (simp add: ensurePathItem_def alloc_def assignProp_def)


subsection \<open>The merge of the generated schemas\<close>



subsection \<open>The clone\<close>






subsection \<open>What the returned document reaches\<close>










end
